theory Spec2Isabelle
  imports Main "HOL-Library.Word" "HOL-Library.AList" "HOL-Library.Sublist"
begin

section \<open>Data model (package store)\<close>

text \<open>
  Go's \<open>int64\<close> is a 64-bit word. Go's \<open>int\<close> (the port argument of the runtime
  call, the slot count, slice lengths) is 64 bits wide on the platforms the controller
  is built for; it is modelled by \<open>int\<close>, with the range check written out where a
  value is parsed.
\<close>

type_synonym int64 = "64 word"

text \<open>\<open>store.HAProxySrv\<close>: a server slot. A slot with address \<open>''''\<close> is disabled.\<close>

record HAProxySrv =
  Name :: string
  Address :: string
  Modified :: bool
  Port :: int64

text \<open>
  \<open>store.Address\<close>. The fields are \<open>Address\<close> and \<open>Port\<close> in the source; they carry
  a prefix here because the slot record already owns these names.
\<close>

record Address =
  addr_Address :: string
  addr_Port :: int64

text \<open>
  \<open>map[string]*store.Address\<close>: the live address set of one service port, keyed by
  address. A Go map has no duplicates and its \<open>range\<close> order is unspecified. The model
  is an association list read through \<open>map_of\<close> (the first entry of a key is its
  value); \<open>range\<close> visits the entries in list order, so the list order stands for
  whichever order the runtime picks, and \<open>delete\<close> is \<open>AList.delete\<close>, which
  removes every entry of the key. The values are pointers that the code dereferences
  without a test; they are never nil and are modelled by the structures they point to.
\<close>

type_synonym Addresses = "(string \<times> Address) list"

text \<open>
  The slot pool is a \<open>[]*store.HAProxySrv\<close>: a slice of pointers. Every slot is
  allocated by its own composite literal, so the pointers of a pool are pairwise
  distinct and a pointer into the pool is identified with its position: the lists
  named \<open>disabled\<close> in the source hold pointers to slots of the pool and are modelled
  as lists of positions, a write through \<open>disabled[0]\<close> being a list update of the pool.
\<close>

type_synonym Pool = "HAProxySrv list"

section \<open>The control-plane client\<close>

text \<open>
  \<open>models.Server\<close> belongs to the client library. The fields the controller writes
  are explicit; everything the annotation handlers set is the component \<open>srv_Options\<close>
  of an arbitrary type.
\<close>

record 'o Server =
  srv_Name :: string
  srv_Address :: string
  srv_Port :: "int64 option"
  srv_Maintenance :: string
  srv_Options :: 'o

text \<open>The mutating calls of \<open>api.HAProxyClient\<close> that the synchronizer issues.\<close>

datatype 'o call =
    SetServerAddr string string string int
  | SetServerState string string string
  | BackendServerEdit string "'o Server"
  | BackendServerCreate string "'o Server"

text \<open>
  The client is an external collaborator. \<open>respond\<close> gives, for the calls issued so
  far in the pass and the call being issued, the error the client returns (\<open>None\<close> is
  Go's \<open>nil\<close>, \<open>Some msg\<close> an error whose \<open>Error()\<close> text is \<open>msg\<close>);
  \<open>ServerGet\<close> reads a server of a backend (\<open>None\<close> when it fails and returns a nil
  server).
\<close>

record 'o HAProxyClient =
  respond :: "'o call list \<Rightarrow> 'o call \<Rightarrow> string option"
  ServerGet :: "string \<Rightarrow> string \<Rightarrow> 'o Server option"

text \<open>
  Modelled from the spec: \<open>utils.Errors\<close> with its methods \<open>Add\<close> and \<open>Result\<close> is not
  among the sources. The spec describes it as an accumulator collecting zero or more
  error values per pass and exposing a single combined error: \<open>Add\<close> keeps a non-nil
  error, \<open>Result\<close> is nil when nothing was collected and one composite error, here the
  list of the collected messages, otherwise.
\<close>

type_synonym Errors = "string list"

definition Errors_Add :: "Errors \<Rightarrow> string option \<Rightarrow> Errors" where
  "Errors_Add errors err = (case err of None \<Rightarrow> errors | Some msg \<Rightarrow> errors @ [msg])"

definition Errors_Result :: "Errors \<Rightarrow> string list option" where
  "Errors_Result errors = (if errors = [] then None else Some errors)"

section \<open>SyncBackendSrvs (package api)\<close>

text \<open>
  First loop: \<open>for i, srv := range *haproxySrvs\<close>. \<open>portChanged\<close> is the constant
  \<open>false\<close>, so the first statement of the body leaves \<open>Modified\<close> as it is. The state is
  the pool, the address map and the list \<open>disabled\<close>.
\<close>

definition disable_step :: "nat \<Rightarrow> Pool \<times> Addresses \<times> nat list \<Rightarrow> Pool \<times> Addresses \<times> nat list" where
  "disable_step i st =
     (case st of (haproxySrvs, newAddresses, disabled) \<Rightarrow>
        let srv = haproxySrvs ! i in
        (case map_of newAddresses (Address srv) of
           Some _ \<Rightarrow> (haproxySrvs, AList.delete (Address srv) newAddresses, disabled)
         | None \<Rightarrow>
             (haproxySrvs[i := srv\<lparr>Address := '''', Modified := True\<rparr>],
              newAddresses, disabled @ [i])))"

definition disable_loop :: "Pool \<Rightarrow> Addresses \<Rightarrow> Pool \<times> Addresses \<times> nat list" where
  "disable_loop haproxySrvs newAddresses =
     fold disable_step [0 ..< length haproxySrvs] (haproxySrvs, newAddresses, [])"

text \<open>
  Second loop: \<open>for key, address := range newAddresses\<close>, left by \<open>break\<close> once
  \<open>disabled\<close> is empty. The result is the pool and what is left of the map.
\<close>

fun assign_loop :: "nat list \<Rightarrow> Pool \<Rightarrow> Addresses \<Rightarrow> Pool \<times> Addresses" where
  "assign_loop [] haproxySrvs newAddresses = (haproxySrvs, newAddresses)"
| "assign_loop (d # disabled) haproxySrvs [] = (haproxySrvs, [])"
| "assign_loop (d # disabled) haproxySrvs ((key, address) # rest) =
     assign_loop disabled
       (haproxySrvs[d := (haproxySrvs ! d)
          \<lparr>Address := addr_Address address, Modified := True, Port := addr_Port address\<rparr>])
       (AList.delete key rest)"

text \<open>
  Third loop: every slot with \<open>Modified\<close> set is pushed with two runtime calls. The
  state is the list of calls issued so far and the error accumulator.
\<close>

definition push_target :: "HAProxySrv \<Rightarrow> string \<times> int \<times> string" where
  "push_target srv =
     (if Address srv = '''' then (''127.0.0.1'', 0, ''maint'')
      else (Address srv, sint (Port srv), ''ready''))"

fun push_loop :: "'o HAProxyClient \<Rightarrow> string \<Rightarrow> Pool \<Rightarrow> 'o call list \<times> Errors \<Rightarrow> 'o call list \<times> Errors" where
  "push_loop c BackendName [] st = st"
| "push_loop c BackendName (srv # rest) (calls, errors) =
     (if \<not> Modified srv then push_loop c BackendName rest (calls, errors)
      else
        (case push_target srv of (ip, port, state) \<Rightarrow>
           let addrCall = SetServerAddr BackendName (Name srv) ip port;
               addrErr = respond c calls addrCall;
               stateCall = SetServerState BackendName (Name srv) state;
               stateErr = respond c (calls @ [addrCall]) stateCall;
               errors' = (if addrErr \<noteq> None \<or> stateErr \<noteq> None
                          then Errors_Add (Errors_Add errors addrErr) stateErr
                          else errors)
           in push_loop c BackendName rest (calls @ [addrCall, stateCall], errors')))"

text \<open>
  The result of a pass: the pool and the address map as the pass leaves them, the calls
  issued to the client, and the returned error.
\<close>

record 'o SyncResult =
  sync_pool :: Pool
  sync_addresses :: Addresses
  sync_calls :: "'o call list"
  sync_error :: "string list option"

definition SyncBackendSrvs :: "'o HAProxyClient \<Rightarrow> string \<Rightarrow> Pool \<Rightarrow> Addresses \<Rightarrow> 'o SyncResult" where
  "SyncBackendSrvs c BackendName haproxySrvs newAddresses =
     (if BackendName = '''' then
        \<lparr>sync_pool = haproxySrvs, sync_addresses = newAddresses, sync_calls = [], sync_error = None\<rparr>
      else
        (case disable_loop haproxySrvs newAddresses of (srvs1, addrs1, disabled) \<Rightarrow>
         (case assign_loop disabled srvs1 addrs1 of (srvs2, addrs2) \<Rightarrow>
         (case push_loop c BackendName srvs2 ([], []) of (calls, errors) \<Rightarrow>
            \<lparr>sync_pool = srvs2, sync_addresses = addrs2, sync_calls = calls,
             sync_error = Errors_Result errors\<rparr>))))"

section \<open>Library functions used by the controller\<close>

text \<open>
  \<open>strconv.Atoi\<close> of Go's standard library, base 10: an optional sign followed by at
  least one decimal digit; a value outside the range of \<open>int\<close> is an error. \<open>None\<close> is
  a non-nil error.
\<close>

definition digit_value :: "char \<Rightarrow> nat option" where
  "digit_value ch =
     map_of [(CHR ''0'', 0), (CHR ''1'', 1), (CHR ''2'', 2), (CHR ''3'', 3), (CHR ''4'', 4),
             (CHR ''5'', 5), (CHR ''6'', 6), (CHR ''7'', 7), (CHR ''8'', 8), (CHR ''9'', 9)] ch"

fun parse_digits :: "string \<Rightarrow> nat \<Rightarrow> nat option" where
  "parse_digits [] acc = Some acc"
| "parse_digits (ch # rest) acc =
     (case digit_value ch of None \<Rightarrow> None | Some d \<Rightarrow> parse_digits rest (10 * acc + d))"

definition Atoi :: "string \<Rightarrow> int option" where
  "Atoi s =
     (case (case s of
              [] \<Rightarrow> (False, [])
            | ch # rest \<Rightarrow>
                if ch = CHR ''-'' then (True, rest)
                else if ch = CHR ''+'' then (False, rest) else (False, s)) of
        (neg, digits) \<Rightarrow>
          if digits = [] then None
          else (case parse_digits digits 0 of
                  None \<Rightarrow> None
                | Some n \<Rightarrow>
                    let v = (if neg then - int n else int n) in
                    if - (2 ^ 63) \<le> v \<and> v < 2 ^ 63 then Some v else None))"

text \<open>
  \<open>fmt.Sprintf("SRV_%d", n)\<close>, for the positive \<open>n\<close> the controller passes
  (\<open>len(*HAProxySrvs)+1\<close>): the decimal digits of \<open>n\<close> after the prefix.
\<close>

definition digit_char :: "nat \<Rightarrow> char" where
  "digit_char d = ''0123456789'' ! d"

function decimal :: "nat \<Rightarrow> string" where
  "decimal n = (if n < 10 then [digit_char n] else decimal (n div 10) @ [digit_char (n mod 10)])"
  by pat_completeness auto
termination
  by (relation "measure (\<lambda>n. n)") auto

declare decimal.simps [simp del]

definition Sprintf_SRV :: "nat \<Rightarrow> string" where
  "Sprintf_SRV n = ''SRV_'' @ decimal n"

text \<open>\<open>strings.Contains\<close>: the second string occurs in the first.\<close>

fun strings_Contains :: "string \<Rightarrow> string \<Rightarrow> bool" where
  "strings_Contains [] substr = (substr = [])"
| "strings_Contains (ch # s) substr = (prefix substr (ch # s) \<or> strings_Contains s substr)"

text \<open>
  \<open>deep.Equal\<close> of the third-party package go-test/deep returns the list of
  differences of two values, empty when they are structurally equal. The model keeps
  whether the list is non-empty, and structural equality is equality in HOL; a nil
  \<open>oldSrv\<close> differs from every server.
\<close>

definition deep_Equal_differs :: "'o Server option \<Rightarrow> 'o Server \<Rightarrow> bool" where
  "deep_Equal_differs oldSrv srv = (oldSrv \<noteq> Some srv)"

text \<open>
  What the code hands to the logger at the levels \<open>Error\<close> and \<open>Warning\<close> (the
  \<open>Debugf\<close> and \<open>Tracef\<close> lines are left out): the error of \<open>strconv.Atoi\<close> on a
  value, the result of a client call (possibly nil), and the warning of
  \<open>HandleEndpoints\<close> for a namespace that is not in the store.
\<close>

datatype log_entry =
    ErrorAtoi string
  | ErrorAPI "string option"
  | WarningNotFound

section \<open>scaleHAProxySrvs (package service)\<close>

text \<open>
  The first loop reads the annotations in the order of the source. The parameter
  \<open>GetValue\<close> stands for \<open>k8sStore.GetValueFromAnnotations(annotation,
  k8sStore.ConfigMaps.Main.Annotations)\<close>, a function of the store that is not among the
  sources. \<open>srvSlots\<close> starts as the zero value.
\<close>

fun annotation_loop :: "(string \<Rightarrow> string) \<Rightarrow> string list \<Rightarrow> log_entry list \<Rightarrow> int \<times> log_entry list" where
  "annotation_loop GetValue [] logged = (0, logged)"
| "annotation_loop GetValue (annotation # rest) logged =
     (let annServerSlots = GetValue annotation in
      if annServerSlots \<noteq> '''' then
        (case Atoi annServerSlots of
           Some v \<Rightarrow> (v, logged)
         | None \<Rightarrow> annotation_loop GetValue rest (logged @ [ErrorAtoi annServerSlots]))
      else annotation_loop GetValue rest logged)"

definition srvSlots_of :: "(string \<Rightarrow> string) \<Rightarrow> int \<times> log_entry list" where
  "srvSlots_of GetValue =
     annotation_loop GetValue [''servers-increment'', ''server-slots'', ''scale-server-slots''] []"

text \<open>
  Second loop: \<open>for len(*HAProxySrvs) < srvSlots\<close>. The state is the pool, the list
  \<open>disabled\<close> and \<open>flag\<close>.
\<close>

function grow_loop :: "int \<Rightarrow> Pool \<Rightarrow> nat list \<Rightarrow> bool \<Rightarrow> Pool \<times> nat list \<times> bool" where
  "grow_loop srvSlots HAProxySrvs disabled flag =
     (if int (length HAProxySrvs) < srvSlots then
        grow_loop srvSlots
          (HAProxySrvs @ [\<lparr>Name = Sprintf_SRV (length HAProxySrvs + 1), Address = '''',
                            Modified = True, Port = 0\<rparr>])
          (disabled @ [length HAProxySrvs]) True
      else (HAProxySrvs, disabled, flag))"
  by pat_completeness auto
termination
  by (relation "measure (\<lambda>(srvSlots, HAProxySrvs, disabled, flag). nat (srvSlots - int (length HAProxySrvs)))") auto

declare grow_loop.simps [simp del]

text \<open>
  Third loop: \<open>for addr, Address := range *newAddresses\<close>. Every entry is deleted
  after it is placed, so the map is empty when the loop ends.
\<close>

function drain_loop :: "Addresses \<Rightarrow> Pool \<Rightarrow> nat list \<Rightarrow> bool \<Rightarrow> Pool \<times> Addresses \<times> bool" where
  "drain_loop [] HAProxySrvs disabled flag = (HAProxySrvs, [], flag)"
| "drain_loop ((addr, address) # rest) HAProxySrvs disabled flag =
     (case disabled of
        d # disabled' \<Rightarrow>
          drain_loop (AList.delete addr rest)
            (HAProxySrvs[d := (HAProxySrvs ! d)
               \<lparr>Address := addr, Modified := True, Port := addr_Port address\<rparr>])
            disabled' flag
      | [] \<Rightarrow>
          drain_loop (AList.delete addr rest)
            (HAProxySrvs @ [\<lparr>Name = Sprintf_SRV (length HAProxySrvs + 1), Address = addr,
                              Modified = True, Port = addr_Port address\<rparr>])
            [] True)"
  by pat_completeness auto
termination
  by (relation "measure (\<lambda>(newAddresses, HAProxySrvs, disabled, flag). length newAddresses)")
    (auto simp: AList.delete_eq intro: le_imp_less_Suc)

record ScaleResult =
  scale_reload :: bool
  scale_addresses :: Addresses
  scale_pool :: Pool
  scale_log :: "log_entry list"

definition scaleHAProxySrvs :: "(string \<Rightarrow> string) \<Rightarrow> Addresses \<Rightarrow> Pool \<Rightarrow> ScaleResult" where
  "scaleHAProxySrvs GetValue newAddresses HAProxySrvs =
     (case srvSlots_of GetValue of (srvSlots, logged) \<Rightarrow>
      (case grow_loop srvSlots HAProxySrvs [] False of (srvs1, disabled, flag1) \<Rightarrow>
      (case drain_loop newAddresses srvs1 disabled False of (srvs2, addrs2, flag2) \<Rightarrow>
         \<lparr>scale_reload = (flag1 \<or> flag2), scale_addresses = addrs2, scale_pool = srvs2,
          scale_log = logged\<rparr>)))"

section \<open>updateHAProxySrv and HandleEndpoints (package service)\<close>

text \<open>
  \<open>updateHAProxySrv\<close> receives the server by value, so the template of the caller is
  not changed. The state is the list of calls issued so far and the log.
\<close>

definition updateHAProxySrv ::
  "'o HAProxyClient \<Rightarrow> string \<Rightarrow> 'o Server \<Rightarrow> HAProxySrv \<Rightarrow> int64 \<Rightarrow>
   'o call list \<times> log_entry list \<Rightarrow> 'o call list \<times> log_entry list" where
  "updateHAProxySrv client backendName srv srvSlot port st =
     (case st of (calls, logged) \<Rightarrow>
        let srv1 = srv\<lparr>srv_Name := Name srvSlot, srv_Port := Some port\<rparr>;
            srv2 = (if Address srvSlot = ''''
                    then srv1\<lparr>srv_Address := ''127.0.0.1'', srv_Maintenance := ''enabled''\<rparr>
                    else srv1\<lparr>srv_Address := Address srvSlot, srv_Maintenance := ''disabled''\<rparr>);
            editCall = BackendServerEdit backendName srv2
        in (case respond client calls editCall of
              None \<Rightarrow> (calls @ [editCall], logged)
            | Some msg \<Rightarrow>
                if strings_Contains msg ''does not exist'' then
                  let createCall = BackendServerCreate backendName srv2 in
                  (calls @ [editCall, createCall],
                   logged @ [ErrorAPI (respond client (calls @ [editCall]) createCall)])
                else (calls @ [editCall], logged)))"

text \<open>
  The fields of the service context that \<open>HandleEndpoints\<close> reads, and the entries of
  \<open>ns.HAProxyConfig[s.service.Name]\<close> for the resolved service port (a pool that is nil
  is \<open>None\<close>). The namespace is \<open>None\<close> when the store does not hold it. The parameter
  \<open>annotated\<close> is the server as \<open>annotations.HandleServerAnnotations\<close>, an external
  collaborator, leaves the empty \<open>models.Server\<close> it is given.
\<close>

record SvcContext =
  service_DNS :: string
  backendName :: string
  newBackend :: bool

record HAProxyConfig =
  cfg_BackendName :: string
  cfg_NewAddresses :: Addresses
  cfg_HAProxySrvs :: "Pool option"

record 'o HandleResult =
  he_reload :: bool
  he_config :: "HAProxyConfig option"
  he_calls :: "'o call list"
  he_log :: "log_entry list"

definition HandleEndpoints ::
  "'o HAProxyClient \<Rightarrow> (string \<Rightarrow> string) \<Rightarrow> 'o Server \<Rightarrow> SvcContext \<Rightarrow>
   HAProxyConfig option \<Rightarrow> 'o HandleResult" where
  "HandleEndpoints client GetValue annotated s ns =
     (case ns of
        None \<Rightarrow> \<lparr>he_reload = False, he_config = None, he_calls = [], he_log = [WarningNotFound]\<rparr>
      | Some cfg \<Rightarrow>
          let newAddresses = cfg_NewAddresses cfg;
              HAProxySrvs = (case cfg_HAProxySrvs cfg of None \<Rightarrow> [] | Some srvs \<Rightarrow> srvs);
              scaled = (if service_DNS s = '''' then scaleHAProxySrvs GetValue newAddresses HAProxySrvs
                        else \<lparr>scale_reload = False, scale_addresses = newAddresses,
                              scale_pool = HAProxySrvs, scale_log = []\<rparr>);
              srvsScaled = scale_reload scaled;
              srv = (if \<not> newBackend s then annotated\<lparr>srv_Name := ''SRV_1''\<rparr> else annotated);
              srvsActiveAnn = (\<not> newBackend s \<and>
                               deep_Equal_differs (ServerGet client ''SRV_1'' (backendName s)) srv)
          in (case fold (\<lambda>srvSlot st.
                     if Modified srvSlot \<or> newBackend s \<or> srvsActiveAnn
                     then updateHAProxySrv client (backendName s) srv srvSlot (Port srvSlot) st
                     else st)
                   (scale_pool scaled) ([], scale_log scaled) of
                (calls, logged) \<Rightarrow>
                  \<lparr>he_reload = (srvsScaled \<or> srvsActiveAnn),
                   he_config = Some \<lparr>cfg_BackendName = backendName s,
                                      cfg_NewAddresses = scale_addresses scaled,
                                      cfg_HAProxySrvs = Some (scale_pool scaled)\<rparr>,
                   he_calls = calls, he_log = logged\<rparr>))"

section \<open>The comparators of package store\<close>

text \<open>
  The remaining structures of the store. \<open>Status\<close> is a type of the store that is not
  among the sources; it is the type parameter \<open>'s\<close>. A pointer that may be nil is an
  \<open>option\<close>. A Go map is an association list read through \<open>map_of\<close>: its \<open>len\<close> counts
  the keys, and \<open>range\<close> visits every key once with its value. \<open>PortEndpoints.Equal\<close>
  reads a field \<open>HAProxySrvs\<close> that the declaration of the structure among the sources
  does not list; the record carries it with the type the method needs.
\<close>

definition map_range :: "('k \<times> 'v) list \<Rightarrow> ('k \<times> 'v) list" where
  "map_range m = AList.clearjunk m"

definition map_len :: "('k \<times> 'v) list \<Rightarrow> nat" where
  "map_len m = length (map_range m)"

text \<open>Indexing a \<open>map[string]string\<close> gives the empty string for a key that is absent.\<close>

definition map_index :: "(string \<times> string) list \<Rightarrow> string \<Rightarrow> string" where
  "map_index m key = (case map_of m key of None \<Rightarrow> '''' | Some v \<Rightarrow> v)"

record 's ServicePort =
  sp_Name :: string
  sp_Protocol :: string
  sp_Port :: int64
  sp_Status :: 's

record PortEndpoints =
  pe_Port :: int64
  pe_DynUpdateFailed :: bool
  pe_AddrCount :: int
  pe_AddrNew :: "(string \<times> unit) list"
  pe_HAProxySrvs :: "HAProxySrv list"

record 's Endpoints =
  ep_SliceName :: string
  ep_Namespace :: string
  ep_Service :: string
  ep_Ports :: "(string \<times> PortEndpoints option) list"
  ep_Status :: 's

record 's Service =
  svc_Namespace :: string
  svc_Name :: string
  svc_Ports :: "'s ServicePort list"
  svc_Addresses :: "string list"
  svc_DNS :: string
  svc_Annotations :: "(string \<times> string) list"
  svc_Status :: 's

record 's IngressClass =
  ic_APIVersion :: string
  ic_Name :: string
  ic_Controller :: string
  ic_Status :: 's

record 's IngressPath =
  ip_SvcName :: string
  ip_SvcPortInt :: int64
  ip_SvcPortString :: string
  ip_SvcPortResolved :: "'s ServicePort option"
  ip_Path :: string
  ip_PathTypeMatch :: string
  ip_IsDefaultBackend :: bool
  ip_Status :: 's

record 's IngressRule =
  ir_Host :: string
  ir_Paths :: "(string \<times> 's IngressPath option) list"
  ir_Status :: 's

record 's IngressTLS =
  tls_Host :: string
  tls_SecretName :: string
  tls_Status :: 's

record 's Ingress =
  ing_APIVersion :: string
  ing_Namespace :: string
  ing_Name :: string
  ing_Class :: string
  ing_Annotations :: "(string \<times> string) list"
  ing_Rules :: "(string \<times> 's IngressRule option) list"
  ing_DefaultBackend :: "'s IngressPath option"
  ing_TLS :: "(string \<times> 's IngressTLS option) list"
  ing_Status :: 's

record 's ConfigMap =
  cm_Namespace :: string
  cm_Name :: string
  cm_Loaded :: bool
  cm_Annotations :: "(string \<times> string) list"
  cm_Status :: 's

record 's Secret =
  sec_Namespace :: string
  sec_Name :: string
  sec_Data :: "(string \<times> 8 word list) list"
  sec_Status :: 's

text \<open>
  Every method returns \<open>false\<close> at the first test that fails and \<open>true\<close> at the end; a
  loop that returns \<open>false\<close> from its body is \<open>list_all\<close> of the negated test.
\<close>

definition ServicePort_Equal :: "'s ServicePort \<Rightarrow> 's ServicePort \<Rightarrow> bool" where
  "ServicePort_Equal a b =
     (if sp_Name a \<noteq> sp_Name b \<or> sp_Protocol a \<noteq> sp_Protocol b \<or> sp_Port a \<noteq> sp_Port b
      then False else True)"

definition IngressClass_Equal :: "'s IngressClass option \<Rightarrow> 's IngressClass option \<Rightarrow> bool" where
  "IngressClass_Equal pa pb =
     (case (pa, pb) of
        (Some a, Some b) \<Rightarrow>
          if ic_Name a \<noteq> ic_Name b then False
          else if ic_Controller a \<noteq> ic_Controller b then False
          else True
      | _ \<Rightarrow> False)"

definition IngressPath_Equal :: "'s IngressPath option \<Rightarrow> 's IngressPath option \<Rightarrow> bool" where
  "IngressPath_Equal pa pb =
     (case (pa, pb) of
        (Some a, Some b) \<Rightarrow>
          if ip_Path a \<noteq> ip_Path b then False
          else if ip_SvcName a \<noteq> ip_SvcName b then False
          else if ip_SvcPortInt a \<noteq> ip_SvcPortInt b then False
          else if ip_SvcPortString a \<noteq> ip_SvcPortString b then False
          else True
      | _ \<Rightarrow> False)"

definition IngressRule_Equal :: "'s IngressRule option \<Rightarrow> 's IngressRule option \<Rightarrow> bool" where
  "IngressRule_Equal pa pb =
     (case (pa, pb) of
        (Some a, Some b) \<Rightarrow>
          if ir_Host a \<noteq> ir_Host b then False
          else if map_len (ir_Paths a) \<noteq> map_len (ir_Paths b) then False
          else if \<not> list_all (\<lambda>(key, v).
                       case map_of (ir_Paths b) key of
                         None \<Rightarrow> False
                       | Some value2 \<Rightarrow> IngressPath_Equal v value2)
                     (map_range (ir_Paths a)) then False
          else True
      | _ \<Rightarrow> False)"

definition IngressTLS_Equal :: "'s IngressTLS option \<Rightarrow> 's IngressTLS option \<Rightarrow> bool" where
  "IngressTLS_Equal pa pb =
     (case (pa, pb) of
        (Some a, Some b) \<Rightarrow>
          if tls_Host a \<noteq> tls_Host b then False
          else if tls_SecretName a \<noteq> tls_SecretName b then False
          else True
      | _ \<Rightarrow> False)"

text \<open>
  In \<open>Ingress.Equal\<close> the test on \<open>DefaultBackend\<close> compares the two pointers before
  it calls \<open>IngressPath.Equal\<close>. Equal pointers are both nil or point to one path, and
  \<open>IngressPath.Equal\<close> holds of a path and itself, so the test fails exactly when the
  pointers are not both nil and \<open>IngressPath.Equal\<close> is false.
\<close>

definition Ingress_Equal :: "'s Ingress option \<Rightarrow> 's Ingress option \<Rightarrow> bool" where
  "Ingress_Equal pa pb =
     (case (pa, pb) of
        (Some a, Some b) \<Rightarrow>
          if ing_Name a \<noteq> ing_Name b then False
          else if ing_Class a \<noteq> ing_Class b then False
          else if map_len (ing_Rules a) \<noteq> map_len (ing_Rules b) then False
          else if \<not> list_all (\<lambda>(k, v).
                       case map_of (ing_Rules b) k of
                         None \<Rightarrow> False
                       | Some value2 \<Rightarrow> IngressRule_Equal v value2)
                     (map_range (ing_Rules a)) then False
          else if map_len (ing_TLS a) \<noteq> map_len (ing_TLS b) then False
          else if \<not> list_all (\<lambda>(k, v).
                       case map_of (ing_TLS b) k of
                         None \<Rightarrow> False
                       | Some value2 \<Rightarrow> IngressTLS_Equal v value2)
                     (map_range (ing_TLS a)) then False
          else if \<not> (ing_DefaultBackend a = None \<and> ing_DefaultBackend b = None) \<and>
                  \<not> IngressPath_Equal (ing_DefaultBackend a) (ing_DefaultBackend b) then False
          else if map_len (ing_Annotations a) \<noteq> map_len (ing_Annotations b) then False
          else if \<not> list_all (\<lambda>(name, value1). value1 = map_index (ing_Annotations b) name)
                     (map_range (ing_Annotations a)) then False
          else True
      | _ \<Rightarrow> False)"

definition Service_Equal :: "'s Service option \<Rightarrow> 's Service option \<Rightarrow> bool" where
  "Service_Equal pa pb =
     (case (pa, pb) of
        (Some a, Some b) \<Rightarrow>
          if svc_Name a \<noteq> svc_Name b then False
          else if map_len (svc_Annotations a) \<noteq> map_len (svc_Annotations b) then False
          else if \<not> list_all (\<lambda>(name, value1). value1 = map_index (svc_Annotations b) name)
                     (map_range (svc_Annotations a)) then False
          else if length (svc_Ports a) \<noteq> length (svc_Ports b) then False
          else if \<not> list_all (\<lambda>index.
                       let p1 = svc_Ports a ! index; p2 = svc_Ports b ! index in
                       \<not> (sp_Name p1 \<noteq> sp_Name p2 \<or> sp_Protocol p1 \<noteq> sp_Protocol p2 \<or>
                          sp_Port p1 \<noteq> sp_Port p2))
                     [0 ..< length (svc_Ports a)] then False
          else True
      | _ \<Rightarrow> False)"

definition ConfigMap_Equal :: "'s ConfigMap option \<Rightarrow> 's ConfigMap option \<Rightarrow> bool" where
  "ConfigMap_Equal pa pb =
     (case (pa, pb) of
        (Some a, Some b) \<Rightarrow>
          if cm_Name a \<noteq> cm_Name b then False
          else if map_len (cm_Annotations a) \<noteq> map_len (cm_Annotations b) then False
          else if \<not> list_all (\<lambda>(name, value1). value1 = map_index (cm_Annotations b) name)
                     (map_range (cm_Annotations a)) then False
          else True
      | _ \<Rightarrow> False)"

definition Secret_Equal :: "'s Secret option \<Rightarrow> 's Secret option \<Rightarrow> bool" where
  "Secret_Equal pa pb =
     (case (pa, pb) of
        (Some a, Some b) \<Rightarrow>
          if sec_Name a \<noteq> sec_Name b then False
          else if map_len (sec_Data a) \<noteq> map_len (sec_Data b) then False
          else if \<not> list_all (\<lambda>(key, v).
                       case map_of (sec_Data b) key of
                         None \<Rightarrow> False
                       | Some value2 \<Rightarrow> v = value2)
                     (map_range (sec_Data a)) then False
          else True
      | _ \<Rightarrow> False)"

definition PortEndpoints_Equal :: "PortEndpoints option \<Rightarrow> PortEndpoints option \<Rightarrow> bool" where
  "PortEndpoints_Equal poldE pnewE =
     (case (poldE, pnewE) of
        (Some oldE, Some newE) \<Rightarrow>
          if pe_Port oldE \<noteq> pe_Port newE then False
          else if pe_AddrCount oldE \<noteq> pe_AddrCount newE then False
          else if \<not> list_all (\<lambda>srv. Address srv = '''' \<or> map_of (pe_AddrNew newE) (Address srv) \<noteq> None)
                     (pe_HAProxySrvs oldE) then False
          else if \<not> list_all (\<lambda>(addr, _). map_of (pe_AddrNew newE) addr \<noteq> None)
                     (map_range (pe_AddrNew oldE)) then False
          else True
      | _ \<Rightarrow> False)"

definition Endpoints_Equal :: "'s Endpoints option \<Rightarrow> 's Endpoints option \<Rightarrow> bool" where
  "Endpoints_Equal pa pb =
     (case (pa, pb) of
        (Some a, Some b) \<Rightarrow>
          if ep_Namespace a \<noteq> ep_Namespace b then False
          else if ep_Service a \<noteq> ep_Service b then False
          else if map_len (ep_Ports a) \<noteq> map_len (ep_Ports b) then False
          else if \<not> list_all (\<lambda>(portName, aPortValue).
                       case map_of (ep_Ports b) portName of
                         None \<Rightarrow> False
                       | Some bPortValue \<Rightarrow> PortEndpoints_Equal aPortValue bPortValue)
                     (map_range (ep_Ports a)) then False
          else True
      | _ \<Rightarrow> False)"

section \<open>Sequences of calls on one pool\<close>

text \<open>
  The callers of the scaling operation and of the synchronization pass are not among
  the sources. A sequence of calls on the pool of one backend is a list of operations,
  each with the arguments of its call; an operation takes the pool the previous one
  left.
\<close>

datatype 'o pool_op =
    Scale "string \<Rightarrow> string" Addresses
  | Synchronize "'o HAProxyClient" string Addresses

fun apply_op :: "'o pool_op \<Rightarrow> Pool \<Rightarrow> Pool" where
  "apply_op (Scale GetValue newAddresses) pool = scale_pool (scaleHAProxySrvs GetValue newAddresses pool)"
| "apply_op (Synchronize c BackendName newAddresses) pool =
     sync_pool (SyncBackendSrvs c BackendName pool newAddresses)"

definition run_ops :: "'o pool_op list \<Rightarrow> Pool \<Rightarrow> Pool" where
  "run_ops ops pool = fold apply_op ops pool"

text \<open>
  The errors the client returns to a list of calls issued one after the other, after
  the calls \<open>hist\<close>: the answer to a call depends on the calls before it.
\<close>

fun failures :: "'o HAProxyClient \<Rightarrow> 'o call list \<Rightarrow> 'o call list \<Rightarrow> string list" where
  "failures c hist [] = []"
| "failures c hist (call # rest) =
     (case respond c hist call of None \<Rightarrow> [] | Some msg \<Rightarrow> [msg]) @ failures c (hist @ [call]) rest"

section \<open>Notions used in the statements\<close>

text \<open>
  The address of slot \<open>i\<close> is still a key of the map when the first loop of
  \<open>SyncBackendSrvs\<close> reaches the slot: it is a key of the map the pass was given, and
  no earlier slot of the pool holds it (an earlier slot holding it has deleted it).
\<close>

definition live_at :: "Pool \<Rightarrow> Addresses \<Rightarrow> nat \<Rightarrow> bool" where
  "live_at pool al i \<longleftrightarrow>
     Address (pool ! i) \<in> fst ` set al \<and> Address (pool ! i) \<notin> Address ` set (take i pool)"

text \<open>
  The two runtime calls that the third loop of \<open>SyncBackendSrvs\<close> issues for one
  slot, the address mutation first.
\<close>

definition runtime_calls :: "string \<Rightarrow> HAProxySrv \<Rightarrow> 'o call list" where
  "runtime_calls BackendName srv =
     (if Address srv = ''''
      then [SetServerAddr BackendName (Name srv) ''127.0.0.1'' 0,
            SetServerState BackendName (Name srv) ''maint'']
      else [SetServerAddr BackendName (Name srv) (Address srv) (sint (Port srv)),
            SetServerState BackendName (Name srv) ''ready''])"

text \<open>
  The server that \<open>updateHAProxySrv\<close> sends for a slot when it is given the port of the
  slot, as \<open>HandleEndpoints\<close> calls it; and the server of an edit call.
\<close>

definition edit_target :: "'o Server \<Rightarrow> HAProxySrv \<Rightarrow> 'o Server" where
  "edit_target srv srvSlot =
     srv\<lparr>srv_Name := Name srvSlot, srv_Port := Some (Port srvSlot),
         srv_Address := (if Address srvSlot = '''' then ''127.0.0.1'' else Address srvSlot),
         srv_Maintenance := (if Address srvSlot = '''' then ''enabled'' else ''disabled'')\<rparr>"

fun edited :: "'o call \<Rightarrow> 'o Server option" where
  "edited (BackendServerEdit b srv) = Some srv"
| "edited (SetServerAddr b name ip port) = None"
| "edited (SetServerState b name state) = None"
| "edited (BackendServerCreate b srv) = None"

section \<open>The first two loops of SyncBackendSrvs\<close>

lemma delete_filter_notin:
  "AList.delete a (filter (\<lambda>(k, _). k \<notin> S) al) = filter (\<lambda>(k, _). k \<notin> insert a S) al"
  by (induction al) (auto simp: AList.delete_eq)

lemma filter_insert_absent:
  "a \<notin> fst ` set al \<or> a \<in> S \<Longrightarrow> filter (\<lambda>(k, _). k \<notin> insert a S) al = filter (\<lambda>(k, _). k \<notin> S) al"
  by (induction al) (auto)

lemma disable_fold_inv:
  "n \<le> length pool \<Longrightarrow>
   fold disable_step [0 ..< n] (pool, al, []) =
     (map (\<lambda>j. if j < n \<and> \<not> live_at pool al j then (pool ! j)\<lparr>Address := '''', Modified := True\<rparr> else pool ! j) [0 ..< length pool],
      filter (\<lambda>(k, _). k \<notin> Address ` set (take n pool)) al,
      filter (\<lambda>j. \<not> live_at pool al j) [0 ..< n])"
proof (induction n)
  case 0
  then show ?case by (simp add: map_nth)
next
  case (Suc n)
  let ?pn = "map (\<lambda>j. if j < n \<and> \<not> live_at pool al j then (pool ! j)\<lparr>Address := '''', Modified := True\<rparr> else pool ! j) [0 ..< length pool]"
  let ?an = "filter (\<lambda>(k, _). k \<notin> Address ` set (take n pool)) al"
  from Suc have n: "n < length pool" by simp
  have srv: "?pn ! n = pool ! n" using n by simp
  have tk: "Address ` set (take (Suc n) pool) = insert (Address (pool ! n)) (Address ` set (take n pool))"
    using n by (simp add: take_Suc_conv_app_nth)
  have pres: "(map_of ?an (Address (pool ! n)) = None) = (\<not> live_at pool al n)"
    by (auto simp: map_of_eq_None_iff live_at_def image_iff)
  have upd: "?pn[n := (pool ! n)\<lparr>Address := '''', Modified := True\<rparr>] =
      map (\<lambda>j. if j < Suc n \<and> \<not> live_at pool al j then (pool ! j)\<lparr>Address := '''', Modified := True\<rparr> else pool ! j) [0 ..< length pool]"
    if "\<not> live_at pool al n"
    using that n by (intro nth_equalityI) (auto simp: nth_list_update less_Suc_eq)
  have same: "?pn =
      map (\<lambda>j. if j < Suc n \<and> \<not> live_at pool al j then (pool ! j)\<lparr>Address := '''', Modified := True\<rparr> else pool ! j) [0 ..< length pool]"
    if "live_at pool al n"
    using that n by (intro nth_equalityI) (auto simp: less_Suc_eq)
  let ?dn = "filter (\<lambda>j. \<not> live_at pool al j) [0 ..< n]"
  have IH: "fold disable_step [0 ..< n] (pool, al, []) = (?pn, ?an, ?dn)"
    using Suc by simp
  have step: "fold disable_step [0 ..< Suc n] (pool, al, []) = disable_step n (?pn, ?an, ?dn)"
    by (simp only: upt_Suc_append[OF le0] fold_append o_apply IH fold_simps)
  show ?case
  proof (cases "live_at pool al n")
    case True
    then obtain v where v: "map_of ?an (Address (pool ! n)) = Some v" using pres by auto
    have ds: "disable_step n (?pn, ?an, ?dn) = (?pn, AList.delete (Address (pool ! n)) ?an, ?dn)"
      unfolding disable_step_def by (simp only: prod.case Let_def srv v option.case)
    have e1: "AList.delete (Address (pool ! n)) ?an = filter (\<lambda>(k, _). k \<notin> Address ` set (take (Suc n) pool)) al"
      by (simp only: delete_filter_notin tk)
    have e2: "?dn = filter (\<lambda>j. \<not> live_at pool al j) [0 ..< Suc n]"
      using True by simp
    show ?thesis
      by (simp only: step ds e1 e2[symmetric] same[OF True, symmetric])
  next
    case False
    then have v: "map_of ?an (Address (pool ! n)) = None" using pres by auto
    have abs: "Address (pool ! n) \<notin> fst ` set al \<or> Address (pool ! n) \<in> Address ` set (take n pool)"
      using False by (auto simp: live_at_def)
    have ds: "disable_step n (?pn, ?an, ?dn) =
        (?pn[n := (pool ! n)\<lparr>Address := [], Modified := True\<rparr>], ?an, ?dn @ [n])"
      unfolding disable_step_def by (simp only: prod.case Let_def srv v option.case)
    have e1: "?an = filter (\<lambda>(k, _). k \<notin> Address ` set (take (Suc n) pool)) al"
      by (simp only: tk filter_insert_absent[OF abs])
    have e2: "?dn @ [n] = filter (\<lambda>j. \<not> live_at pool al j) [0 ..< Suc n]"
      using False by simp
    show ?thesis
      by (simp only: step ds e2 upd[OF False]) (simp only: e1[symmetric])
  qed
qed

lemma delete_fresh_key: "key \<notin> fst ` set rest \<Longrightarrow> AList.delete key rest = rest"
  by (induction rest) (auto simp: AList.delete_eq)

lemma assign_loop_length: "length (fst (assign_loop dis pool al)) = length pool"
  by (induction dis pool al rule: assign_loop.induct) simp_all

lemma assign_loop_rest:
  "distinct (map fst al) \<Longrightarrow> snd (assign_loop dis pool al) = drop (length dis) al"
  by (induction dis pool al rule: assign_loop.induct) (simp_all add: delete_fresh_key)

lemma assign_loop_other:
  "distinct (map fst al) \<Longrightarrow> i \<notin> set (take (length al) dis) \<Longrightarrow>
   fst (assign_loop dis pool al) ! i = pool ! i"
  by (induction dis pool al rule: assign_loop.induct) (simp_all add: delete_fresh_key)

lemma assign_loop_hit:
  "distinct (map fst al) \<Longrightarrow> distinct dis \<Longrightarrow> \<forall>d \<in> set dis. d < length pool \<Longrightarrow>
   j < length dis \<Longrightarrow> j < length al \<Longrightarrow>
   fst (assign_loop dis pool al) ! (dis ! j) =
     (pool ! (dis ! j))\<lparr>Address := addr_Address (snd (al ! j)), Modified := True,
        Port := addr_Port (snd (al ! j))\<rparr>"
proof (induction dis pool al arbitrary: j rule: assign_loop.induct)
  case (3 d disabled haproxySrvs key address rest)
  have del: "AList.delete key rest = rest" using "3.prems"(1) by (simp add: delete_fresh_key)
  show ?case
  proof (cases j)
    case 0
    have "d \<notin> set (take (length rest) disabled)" using "3.prems"(2) by (auto dest: in_set_takeD)
    then show ?thesis using 0 "3.prems" by (simp add: del assign_loop_other)
  next
    case (Suc j')
    have ne: "disabled ! j' \<noteq> d" using "3.prems" Suc by auto
    have "fst (assign_loop disabled
        (haproxySrvs[d := (haproxySrvs ! d)\<lparr>Address := addr_Address address, Modified := True, Port := addr_Port address\<rparr>])
        (AList.delete key rest)) ! (disabled ! j') =
      ((haproxySrvs[d := (haproxySrvs ! d)\<lparr>Address := addr_Address address, Modified := True, Port := addr_Port address\<rparr>]) ! (disabled ! j'))
        \<lparr>Address := addr_Address (snd (AList.delete key rest ! j')), Modified := True,
         Port := addr_Port (snd (AList.delete key rest ! j'))\<rparr>"
      using "3.prems" Suc by (intro "3.IH") (auto simp: del)
    then show ?thesis using Suc ne by (simp add: del)
  qed
qed simp_all

lemma sync_two_loops:
  fixes c :: "'o HAProxyClient"
  assumes name: "BackendName \<noteq> ''''"
    and keys: "distinct (map fst newAddresses)"
    and live: "live = (\<lambda>i. Address (pool ! i) \<in> fst ` set newAddresses \<and>
                            Address (pool ! i) \<notin> Address ` set (take i pool))"
    and reusable: "reusable = filter (\<lambda>i. \<not> live i) [0 ..< length pool]"
    and unmatched: "unmatched = filter (\<lambda>(key, _). key \<notin> Address ` set pool) newAddresses"
    and r: "r = SyncBackendSrvs c BackendName pool newAddresses"
  shows "disable_loop pool newAddresses =
           (map (\<lambda>i. if live i then pool ! i else (pool ! i)\<lparr>Address := '''', Modified := True\<rparr>)
              [0 ..< length pool], unmatched, reusable)
       \<and> length (sync_pool r) = length pool
       \<and> (\<forall>i < length pool. live i \<longrightarrow>
             sync_pool r ! i = pool ! i \<and> Address (pool ! i) \<notin> fst ` set (sync_addresses r))
       \<and> (\<forall>j < length reusable.
             sync_pool r ! (reusable ! j) =
               (if j < length unmatched
                then (pool ! (reusable ! j))\<lparr>Address := addr_Address (snd (unmatched ! j)),
                       Modified := True, Port := addr_Port (snd (unmatched ! j))\<rparr>
                else (pool ! (reusable ! j))\<lparr>Address := '''', Modified := True\<rparr>))
       \<and> sync_addresses r = drop (length reusable) unmatched"
proof -
  let ?p1 = "map (\<lambda>i. if live i then pool ! i else (pool ! i)\<lparr>Address := '''', Modified := True\<rparr>)
              [0 ..< length pool]"
  have la: "live = live_at pool newAddresses" by (simp add: live live_at_def fun_eq_iff)
  have dl: "disable_loop pool newAddresses = (?p1, unmatched, reusable)"
    unfolding disable_loop_def
    by (simp add: disable_fold_inv[OF order_refl] la reusable unmatched del: upt_Suc cong: if_cong)
  have ukeys: "distinct (map fst unmatched)"
    unfolding unmatched using keys by (simp add: distinct_map_filter)
  have rdist: "distinct reusable" and rrange: "\<forall>d \<in> set reusable. d < length ?p1"
    unfolding reusable by auto
  have pool2: "sync_pool r = fst (assign_loop reusable ?p1 unmatched)"
    and addr2: "sync_addresses r = snd (assign_loop reusable ?p1 unmatched)"
    unfolding r SyncBackendSrvs_def using name by (simp_all add: dl split: prod.splits)
  have len: "length (sync_pool r) = length pool"
    by (simp add: pool2 assign_loop_length)
  have rest: "sync_addresses r = drop (length reusable) unmatched"
    by (simp add: addr2 assign_loop_rest[OF ukeys])
  have kept: "sync_pool r ! i = pool ! i \<and> Address (pool ! i) \<notin> fst ` set (sync_addresses r)"
    if i: "i < length pool" and li: "live i" for i
  proof -
    have "i \<notin> set reusable" using li by (simp add: reusable)
    then have "i \<notin> set (take (length unmatched) reusable)" by (auto dest: in_set_takeD)
    then have "sync_pool r ! i = ?p1 ! i" by (simp add: pool2 assign_loop_other[OF ukeys])
    moreover have "?p1 ! i = pool ! i" using i li by simp
    moreover have "Address (pool ! i) \<notin> fst ` set unmatched"
      using i by (auto simp: unmatched)
    then have "Address (pool ! i) \<notin> fst ` set (sync_addresses r)"
      unfolding rest by (auto dest: in_set_dropD)
    ultimately show ?thesis by simp
  qed
  have reused: "sync_pool r ! (reusable ! j) =
               (if j < length unmatched
                then (pool ! (reusable ! j))\<lparr>Address := addr_Address (snd (unmatched ! j)),
                       Modified := True, Port := addr_Port (snd (unmatched ! j))\<rparr>
                else (pool ! (reusable ! j))\<lparr>Address := '''', Modified := True\<rparr>)"
    if j: "j < length reusable" for j
  proof -
    have mem: "reusable ! j \<in> set reusable" using j by simp
    then have rj: "reusable ! j < length pool" and nl: "\<not> live (reusable ! j)"
      by (simp_all add: reusable)
    have p1j: "?p1 ! (reusable ! j) = (pool ! (reusable ! j))\<lparr>Address := '''', Modified := True\<rparr>"
      using rj nl by simp
    show ?thesis
    proof (cases "j < length unmatched")
      case True
      show ?thesis
        unfolding pool2 assign_loop_hit[OF ukeys rdist rrange j True] p1j using True by simp
    next
      case False
      have "reusable ! j \<notin> set (take (length unmatched) reusable)"
      proof
        assume "reusable ! j \<in> set (take (length unmatched) reusable)"
        then obtain k where k: "k < length unmatched" "k < length reusable" "reusable ! k = reusable ! j"
          by (auto simp: in_set_conv_nth)
        then have "k = j" using rdist j by (simp add: nth_eq_iff_index_eq)
        then show False using k False by simp
      qed
      then show ?thesis
        unfolding pool2 using False by (simp add: assign_loop_other[OF ukeys] p1j)
    qed
  qed
  show ?thesis using dl len kept reused rest by blast
qed

lemma sync_pool_slots:
  fixes c :: "'o HAProxyClient"
  assumes name: "BackendName \<noteq> ''''"
    and keys: "distinct (map fst newAddresses)"
    and reusable: "reusable = filter (\<lambda>i. \<not> live_at pool newAddresses i) [0 ..< length pool]"
    and unmatched: "unmatched = filter (\<lambda>(key, _). key \<notin> Address ` set pool) newAddresses"
    and r: "r = SyncBackendSrvs c BackendName pool newAddresses"
  shows "length (sync_pool r) = length pool"
    and "\<And>i. i < length pool \<Longrightarrow> live_at pool newAddresses i \<Longrightarrow> sync_pool r ! i = pool ! i"
    and "\<And>j. j < length reusable \<Longrightarrow>
             sync_pool r ! (reusable ! j) =
               (if j < length unmatched
                then (pool ! (reusable ! j))\<lparr>Address := addr_Address (snd (unmatched ! j)),
                       Modified := True, Port := addr_Port (snd (unmatched ! j))\<rparr>
                else (pool ! (reusable ! j))\<lparr>Address := '''', Modified := True\<rparr>)"
proof -
  define live where "live = (\<lambda>i. Address (pool ! i) \<in> fst ` set newAddresses \<and>
                            Address (pool ! i) \<notin> Address ` set (take i pool))"
  have la: "live = live_at pool newAddresses" by (simp add: live_def live_at_def fun_eq_iff)
  note T = sync_two_loops[OF name keys live_def reusable[folded la] unmatched r]
  show "length (sync_pool r) = length pool" using T by simp
  show "\<And>i. i < length pool \<Longrightarrow> live_at pool newAddresses i \<Longrightarrow> sync_pool r ! i = pool ! i"
    using T la by simp
  show "\<And>j. j < length reusable \<Longrightarrow>
             sync_pool r ! (reusable ! j) =
               (if j < length unmatched
                then (pool ! (reusable ! j))\<lparr>Address := addr_Address (snd (unmatched ! j)),
                       Modified := True, Port := addr_Port (snd (unmatched ! j))\<rparr>
                else (pool ! (reusable ! j))\<lparr>Address := '''', Modified := True\<rparr>)"
    using T by blast
qed




section \<open>The third loop of SyncBackendSrvs\<close>

lemma failures_append:
  "failures c hist (xs @ ys) = failures c hist xs @ failures c (hist @ xs) ys"
  by (induction xs arbitrary: hist) simp_all

lemma push_loop_Cons_Modified:
  "Modified srv \<Longrightarrow>
   push_loop c b (srv # rest) (calls, errors) =
     push_loop c b rest (calls @ runtime_calls b srv, errors @ failures c calls (runtime_calls b srv))"
  by (cases "Address srv = []")
    (simp_all add: push_target_def runtime_calls_def Let_def Errors_Add_def split: option.split)

lemma push_loop_char:
  "push_loop c b srvs (calls, errors) =
     (calls @ concat (map (runtime_calls b) (filter Modified srvs)),
      errors @ failures c calls (concat (map (runtime_calls b) (filter Modified srvs))))"
proof (induction srvs arbitrary: calls errors)
  case Nil
  then show ?case by simp
next
  case (Cons srv rest)
  show ?case
  proof (cases "Modified srv")
    case False
    then show ?thesis by (simp add: Cons.IH)
  next
    case True
    show ?thesis
      unfolding push_loop_Cons_Modified[OF True] Cons.IH using True
      by (simp add: failures_append)
  qed
qed

section \<open>The loops of scaleHAProxySrvs\<close>

lemma grow_loop_char:
  "grow_loop m pool dis flag =
     (pool @ map (\<lambda>k. \<lparr>Name = Sprintf_SRV (k + 1), Address = '''', Modified = True, Port = 0\<rparr>)
               [length pool ..< nat m],
      dis @ [length pool ..< nat m],
      flag \<or> int (length pool) < m)"
proof (induction m pool dis flag rule: grow_loop.induct)
  case (1 srvSlots HAProxySrvs disabled flag)
  show ?case
  proof (cases "int (length HAProxySrvs) < srvSlots")
    case True
    then have lt: "length HAProxySrvs < nat srvSlots" by simp
    show ?thesis
      using True "1.IH"[OF True]
      by (subst grow_loop.simps) (simp add: upt_conv_Cons[OF lt])
  next
    case False
    then show ?thesis by (subst grow_loop.simps) simp
  qed
qed

lemma drain_loop_char:
  "distinct (map fst al) \<Longrightarrow> a \<le> length pool \<Longrightarrow>
   drain_loop al pool [a ..< length pool] flag = (pool', al', flag') \<Longrightarrow>
   al' = [] \<and> flag' = (flag \<or> length pool - a < length al) \<and>
   length pool' = max (length pool) (a + length al) \<and>
   (\<forall>i < a. pool' ! i = pool ! i) \<and>
   (\<forall>j < length al. pool' ! (a + j) =
      (if a + j < length pool
       then (pool ! (a + j))\<lparr>Address := fst (al ! j), Modified := True, Port := addr_Port (snd (al ! j))\<rparr>
       else \<lparr>Name = Sprintf_SRV (a + j + 1), Address = fst (al ! j), Modified = True,
              Port = addr_Port (snd (al ! j))\<rparr>)) \<and>
   (\<forall>i. a + length al \<le> i \<and> i < length pool \<longrightarrow> pool' ! i = pool ! i)"
proof (induction al arbitrary: a pool flag)
  case Nil
  then show ?case by simp
next
  case (Cons e rest)
  obtain addr address where e: "e = (addr, address)" by (cases e)
  have del: "AList.delete addr rest = rest" and dr: "distinct (map fst rest)"
    using Cons.prems(1) by (simp_all add: e delete_fresh_key)
  show ?case
  proof (cases "a < length pool")
    case True
    let ?p1 = "pool[a := (pool ! a)\<lparr>Address := addr, Modified := True, Port := addr_Port address\<rparr>]"
    have rec: "drain_loop rest ?p1 [Suc a ..< length ?p1] flag = (pool', al', flag')"
      using Cons.prems(3) True by (simp add: e del upt_conv_Cons)
    have IH: "al' = [] \<and> flag' = (flag \<or> length ?p1 - Suc a < length rest) \<and>
       length pool' = max (length ?p1) (Suc a + length rest) \<and>
       (\<forall>i < Suc a. pool' ! i = ?p1 ! i) \<and>
       (\<forall>j < length rest. pool' ! (Suc a + j) =
          (if Suc a + j < length ?p1
           then (?p1 ! (Suc a + j))\<lparr>Address := fst (rest ! j), Modified := True, Port := addr_Port (snd (rest ! j))\<rparr>
           else \<lparr>Name = Sprintf_SRV (Suc a + j + 1), Address = fst (rest ! j), Modified = True,
                  Port = addr_Port (snd (rest ! j))\<rparr>)) \<and>
       (\<forall>i. Suc a + length rest \<le> i \<and> i < length ?p1 \<longrightarrow> pool' ! i = ?p1 ! i)"
      using True by (intro Cons.IH[OF dr _ rec]) simp
    have hit: "pool' ! (a + j) =
      (if a + j < length pool
       then (pool ! (a + j))\<lparr>Address := fst ((e # rest) ! j), Modified := True, Port := addr_Port (snd ((e # rest) ! j))\<rparr>
       else \<lparr>Name = Sprintf_SRV (a + j + 1), Address = fst ((e # rest) ! j), Modified = True,
              Port = addr_Port (snd ((e # rest) ! j))\<rparr>)" if j: "j < length (e # rest)" for j
    proof (cases j)
      case 0
      then show ?thesis using IH True by (simp add: e)
    next
      case (Suc j')
      then show ?thesis using IH j by simp
    qed
    show ?thesis using IH True hit by (auto simp: max_def)
  next
    case False
    then have eq: "a = length pool" using Cons.prems(2) by simp
    let ?p1 = "pool @ [\<lparr>Name = Sprintf_SRV (length pool + 1), Address = addr, Modified = True, Port = addr_Port address\<rparr>]"
    have rec: "drain_loop rest ?p1 [Suc a ..< length ?p1] True = (pool', al', flag')"
      using Cons.prems(3) by (simp add: e del eq)
    have IH: "al' = [] \<and> flag' = (True \<or> length ?p1 - Suc a < length rest) \<and>
       length pool' = max (length ?p1) (Suc a + length rest) \<and>
       (\<forall>i < Suc a. pool' ! i = ?p1 ! i) \<and>
       (\<forall>j < length rest. pool' ! (Suc a + j) =
          (if Suc a + j < length ?p1
           then (?p1 ! (Suc a + j))\<lparr>Address := fst (rest ! j), Modified := True, Port := addr_Port (snd (rest ! j))\<rparr>
           else \<lparr>Name = Sprintf_SRV (Suc a + j + 1), Address = fst (rest ! j), Modified = True,
                  Port = addr_Port (snd (rest ! j))\<rparr>)) \<and>
       (\<forall>i. Suc a + length rest \<le> i \<and> i < length ?p1 \<longrightarrow> pool' ! i = ?p1 ! i)"
      by (intro Cons.IH[OF dr _ rec]) (simp add: eq)
    have hit: "pool' ! (a + j) =
      (if a + j < length pool
       then (pool ! (a + j))\<lparr>Address := fst ((e # rest) ! j), Modified := True, Port := addr_Port (snd ((e # rest) ! j))\<rparr>
       else \<lparr>Name = Sprintf_SRV (a + j + 1), Address = fst ((e # rest) ! j), Modified = True,
              Port = addr_Port (snd ((e # rest) ! j))\<rparr>)" if j: "j < length (e # rest)" for j
    proof (cases j)
      case 0
      then show ?thesis using IH by (simp add: e eq)
    next
      case (Suc j')
      then show ?thesis using IH j by (simp add: eq)
    qed
    have keep: "\<forall>i < a. pool' ! i = pool ! i" using IH by (simp add: eq nth_append)
    show ?thesis using IH hit keep by (auto simp: max_def eq)
  qed
qed

lemma Atoi_empty: "Atoi [] = None"
  by (simp add: Atoi_def)

lemma srvSlots_of_char:
  "srvSlots_of GetValue =
     ((case List.map_filter (\<lambda>a. Atoi (GetValue a))
              [''servers-increment'', ''server-slots'', ''scale-server-slots''] of
         [] \<Rightarrow> 0 | v # _ \<Rightarrow> v),
      map ErrorAtoi (filter (\<lambda>v. v \<noteq> '''')
        (map GetValue (takeWhile (\<lambda>a. Atoi (GetValue a) = None)
           [''servers-increment'', ''server-slots'', ''scale-server-slots'']))))"
proof -
  have step: "annotation_loop GetValue (a # rest) logged =
      (case Atoi (GetValue a) of
         Some v \<Rightarrow> (v, logged)
       | None \<Rightarrow> annotation_loop GetValue rest
                   (logged @ map ErrorAtoi (filter (\<lambda>v. v \<noteq> '''') [GetValue a])))"
    for a rest logged
    by (cases "GetValue a = ''''") (simp_all add: Atoi_empty split: option.split)
  show ?thesis
    unfolding srvSlots_of_def
    by (simp only: step annotation_loop.simps(1))
      (simp add: List.map_filter_simps split: option.split)
qed

lemma drain_loop_grows:
  "drain_loop al pool dis flag = (pool', al', flag') \<Longrightarrow>
   length pool \<le> length pool' \<and> flag' = (flag \<or> length pool < length pool') \<and>
   prefix (map Name pool) (map Name pool')"
proof (induction al pool dis flag arbitrary: pool' al' flag' rule: drain_loop.induct)
  case (1 HAProxySrvs disabled flag)
  then show ?case by simp
next
  case (2 addr address rest HAProxySrvs disabled flag)
  show ?case
  proof (cases disabled)
    case Nil
    let ?p1 = "HAProxySrvs @ [\<lparr>Name = Sprintf_SRV (length HAProxySrvs + 1), Address = addr,
                              Modified = True, Port = addr_Port address\<rparr>]"
    have rec: "drain_loop (AList.delete addr rest) ?p1 [] True = (pool', al', flag')"
      using "2.prems" Nil by simp
    from "2.IH"(1)[OF Nil rec]
    have "length ?p1 \<le> length pool'" "flag' = True" "prefix (map Name ?p1) (map Name pool')"
      by simp_all
    then show ?thesis by (auto dest: append_prefixD)
  next
    case (Cons d disabled')
    let ?p1 = "HAProxySrvs[d := (HAProxySrvs ! d)\<lparr>Address := addr, Modified := True, Port := addr_Port address\<rparr>]"
    have rec: "drain_loop (AList.delete addr rest) ?p1 disabled' flag = (pool', al', flag')"
      using "2.prems" Cons by simp
    have names: "map Name ?p1 = map Name HAProxySrvs"
      by (cases "d < length HAProxySrvs") (simp_all add: map_update list_update_same_conv list_update_beyond)
    from "2.IH"(2)[OF Cons rec] names show ?thesis by simp
  qed
qed

lemma scaleHAProxySrvs_grows:
  "length pool \<le> length (scale_pool (scaleHAProxySrvs GetValue al pool)) \<and>
   scale_reload (scaleHAProxySrvs GetValue al pool) =
     (length pool < length (scale_pool (scaleHAProxySrvs GetValue al pool))) \<and>
   prefix (map Name pool) (map Name (scale_pool (scaleHAProxySrvs GetValue al pool)))"
proof -
  obtain m logged where sl: "srvSlots_of GetValue = (m, logged)"
    by (cases "srvSlots_of GetValue")
  let ?g = "pool @ map (\<lambda>k. \<lparr>Name = Sprintf_SRV (k + 1), Address = '''', Modified = True, Port = 0\<rparr>)
               [length pool ..< nat m]"
  obtain pool' al' flag' where
    dr: "drain_loop al ?g ([] @ [length pool ..< nat m]) False = (pool', al', flag')"
    by (cases "drain_loop al ?g ([] @ [length pool ..< nat m]) False") blast
  have res: "scale_pool (scaleHAProxySrvs GetValue al pool) = pool'"
    "scale_reload (scaleHAProxySrvs GetValue al pool) = ((False \<or> int (length pool) < m) \<or> flag')"
    unfolding scaleHAProxySrvs_def sl grow_loop_char
    by (simp_all only: prod.case dr ScaleResult.simps)
  from drain_loop_grows[OF dr]
  have D: "length ?g \<le> length pool'" "flag' = (length ?g < length pool')"
    "prefix (map Name ?g) (map Name pool')" by simp_all
  have "prefix (map Name pool) (map Name pool')"
    using D(3) by (auto dest: append_prefixD)
  moreover have "length pool \<le> length pool'" using D(1) by simp
  moreover have "((False \<or> int (length pool) < m) \<or> flag') = (length pool < length pool')"
    using D(1,2) by (cases "int (length pool) < m") auto
  ultimately show ?thesis unfolding res by simp
qed

lemma scaleHAProxySrvs_no_growth:
  assumes keys: "distinct (map fst al)"
    and le: "fst (srvSlots_of GetValue) \<le> int (length pool)"
  shows "scale_pool (scaleHAProxySrvs GetValue al pool) =
           pool @ map (\<lambda>j. \<lparr>Name = Sprintf_SRV (length pool + j + 1), Address = fst (al ! j),
                               Modified = True, Port = addr_Port (snd (al ! j))\<rparr>) [0 ..< length al]"
    and "scale_reload (scaleHAProxySrvs GetValue al pool) = (al \<noteq> [])"
    and "scale_addresses (scaleHAProxySrvs GetValue al pool) = []"
proof -
  obtain m logged where sl: "srvSlots_of GetValue = (m, logged)"
    by (cases "srvSlots_of GetValue")
  have m: "nat m \<le> length pool" "\<not> int (length pool) < m" using le sl by simp_all
  have grow: "grow_loop m pool [] False = (pool, [], False)"
    using m by (simp add: grow_loop_char)
  obtain pool' al' flag' where dr0: "drain_loop al pool [] False = (pool', al', flag')"
    by (cases "drain_loop al pool [] False") blast
  have dr: "drain_loop al pool [length pool ..< length pool] False = (pool', al', flag')"
    using dr0 by simp
  have res: "scale_pool (scaleHAProxySrvs GetValue al pool) = pool'"
    "scale_reload (scaleHAProxySrvs GetValue al pool) = flag'"
    "scale_addresses (scaleHAProxySrvs GetValue al pool) = al'"
    unfolding scaleHAProxySrvs_def sl by (simp_all only: grow dr0 prod.case ScaleResult.simps simp_thms)
  note D = drain_loop_char[OF keys order_refl dr]
  have len: "length pool' = length pool + length al" using D by (simp add: max_def)
  have "pool' = pool @ map (\<lambda>j. \<lparr>Name = Sprintf_SRV (length pool + j + 1), Address = fst (al ! j),
                               Modified = True, Port = addr_Port (snd (al ! j))\<rparr>) [0 ..< length al]"
  proof (intro nth_equalityI)
    show "length pool' = length (pool @ map (\<lambda>j. \<lparr>Name = Sprintf_SRV (length pool + j + 1), Address = fst (al ! j),
                               Modified = True, Port = addr_Port (snd (al ! j))\<rparr>) [0 ..< length al])"
      using len by simp
  next
    fix i assume i: "i < length pool'"
    show "pool' ! i = (pool @ map (\<lambda>j. \<lparr>Name = Sprintf_SRV (length pool + j + 1), Address = fst (al ! j),
                               Modified = True, Port = addr_Port (snd (al ! j))\<rparr>) [0 ..< length al]) ! i"
    proof (cases "i < length pool")
      case True
      then show ?thesis using D by (simp add: nth_append)
    next
      case False
      then obtain j where j: "i = length pool + j" "j < length al"
        using i len by (metis add_diff_inverse_nat nat_add_left_cancel_less)
      with D have "pool' ! (length pool + j) =
         \<lparr>Name = Sprintf_SRV (length pool + j + 1), Address = fst (al ! j), Modified = True,
              Port = addr_Port (snd (al ! j))\<rparr>" by simp
      then show ?thesis using j by (simp add: nth_append)
    qed
  qed
  then show "scale_pool (scaleHAProxySrvs GetValue al pool) =
           pool @ map (\<lambda>j. \<lparr>Name = Sprintf_SRV (length pool + j + 1), Address = fst (al ! j),
                               Modified = True, Port = addr_Port (snd (al ! j))\<rparr>) [0 ..< length al]"
    by (simp only: res)
  show "scale_reload (scaleHAProxySrvs GetValue al pool) = (al \<noteq> [])"
    using D by (simp add: res)
  show "scale_addresses (scaleHAProxySrvs GetValue al pool) = []"
    using D by (simp add: res)
qed

lemma scale_log_eq: "scale_log (scaleHAProxySrvs GetValue al pool) = snd (srvSlots_of GetValue)"
  unfolding scaleHAProxySrvs_def by (simp split: prod.splits)

text \<open>
  Claim C3. When the pool has fewer slots than the resolved minimum \<open>srvSlots\<close>, the
  second loop of \<open>scaleHAProxySrvs\<close> appends disabled slots (\<open>Address = ''''\<close>,
  \<open>Modified = True\<close>) named \<open>SRV_<n>\<close> by the next index until the pool has
  \<open>srvSlots\<close> slots; the list of recyclable slots is exactly the slots created, and the
  flag that signals a reload is set. The last loop then drains the address set: the
  \<open>j\<close>-th address (in the order the map is ranged over) is placed in the \<open>j\<close>-th slot
  after the old pool, a recyclable slot as long as one is left and a slot appended at
  the end otherwise; the slots of the old pool are untouched, the address set is left
  empty and reload is signalled.
\<close>

theorem scaleHAProxySrvs_grows_to_minimum:
  assumes keys: "distinct (map fst newAddresses)"
    and min: "srvSlots = fst (srvSlots_of GetValue)"
    and short: "int (length pool) < srvSlots"
    and r: "r = scaleHAProxySrvs GetValue newAddresses pool"
  shows "grow_loop srvSlots pool [] False =
           (pool @ map (\<lambda>k. \<lparr>Name = Sprintf_SRV (k + 1), Address = '''', Modified = True, Port = 0\<rparr>)
                     [length pool ..< nat srvSlots],
            [length pool ..< nat srvSlots], True)
       \<and> scale_reload r \<and> scale_addresses r = []
       \<and> length (scale_pool r) = max (nat srvSlots) (length pool + length newAddresses)
       \<and> take (length pool) (scale_pool r) = pool
       \<and> (\<forall>j. length pool + j < length (scale_pool r) \<longrightarrow>
             scale_pool r ! (length pool + j) =
               \<lparr>Name = Sprintf_SRV (length pool + j + 1),
                Address = (if j < length newAddresses then fst (newAddresses ! j) else ''''),
                Modified = True,
                Port = (if j < length newAddresses then addr_Port (snd (newAddresses ! j)) else 0)\<rparr>)"
proof -
  let ?n = "length pool"
  let ?f = "\<lambda>k. \<lparr>Name = Sprintf_SRV (k + 1), Address = '''', Modified = True, Port = 0\<rparr>"
  let ?g = "pool @ map ?f [?n ..< nat srvSlots]"
  have lt: "?n < nat srvSlots" using short by simp
  have lg: "length ?g = nat srvSlots" using lt by simp
  have grow: "grow_loop srvSlots pool [] False = (?g, [?n ..< nat srvSlots], True)"
    using short by (simp add: grow_loop_char)
  obtain logged where sl: "srvSlots_of GetValue = (srvSlots, logged)"
    using min by (cases "srvSlots_of GetValue") simp
  obtain pool' al' flag' where dr0: "drain_loop newAddresses ?g [?n ..< nat srvSlots] False = (pool', al', flag')"
    by (cases "drain_loop newAddresses ?g [?n ..< nat srvSlots] False") blast
  have dr: "drain_loop newAddresses ?g [?n ..< length ?g] False = (pool', al', flag')"
    using dr0 by (simp only: lg)
  have res: "scale_reload r = True" "scale_addresses r = al'" "scale_pool r = pool'"
    unfolding r scaleHAProxySrvs_def sl by (simp_all only: grow dr0 prod.case ScaleResult.simps simp_thms)
  have nle: "?n \<le> length ?g" by simp
  note D = drain_loop_char[OF keys nle dr]
  have al': "al' = []" using D by simp
  have len: "length pool' = max (nat srvSlots) (?n + length newAddresses)"
    using D lg by (simp add: max_def)
  have keep: "pool' ! i = pool ! i" if "i < ?n" for i
    using D that by (simp add: nth_append)
  have tk: "take ?n pool' = pool"
    using len lt keep by (intro nth_equalityI) (auto simp: max_def)
  have slot: "pool' ! (?n + j) =
               \<lparr>Name = Sprintf_SRV (?n + j + 1),
                Address = (if j < length newAddresses then fst (newAddresses ! j) else ''''),
                Modified = True,
                Port = (if j < length newAddresses then addr_Port (snd (newAddresses ! j)) else 0)\<rparr>"
    if j: "?n + j < length pool'" for j
  proof (cases "j < length newAddresses")
    case True
    have old: "?g ! (?n + j) = ?f (?n + j)" if "?n + j < nat srvSlots"
    proof -
      have "[?n ..< nat srvSlots] ! j = ?n + j" using that by (rule nth_upt)
      moreover have "j < length [?n ..< nat srvSlots]" using that by simp
      ultimately show ?thesis by (simp add: nth_append)
    qed
    from D True have "pool' ! (?n + j) =
      (if ?n + j < length ?g
       then (?g ! (?n + j))\<lparr>Address := fst (newAddresses ! j), Modified := True, Port := addr_Port (snd (newAddresses ! j))\<rparr>
       else \<lparr>Name = Sprintf_SRV (?n + j + 1), Address = fst (newAddresses ! j), Modified = True,
              Port = addr_Port (snd (newAddresses ! j))\<rparr>)" by blast
    then show ?thesis using True old by (simp only: lg split: if_splits) simp_all
  next
    case False
    then have b: "?n + length newAddresses \<le> ?n + j" by simp
    have lj: "?n + j < nat srvSlots" using j len False by (simp add: max_def split: if_splits)
    then have "pool' ! (?n + j) = ?g ! (?n + j)" using D b lg by simp
    moreover have "[?n ..< nat srvSlots] ! j = ?n + j" using lj by (rule nth_upt)
    moreover have "j < length [?n ..< nat srvSlots]" using lj by simp
    ultimately show ?thesis using False by (simp add: nth_append)
  qed
  show ?thesis using grow res al' len tk slot by simp
qed

theorem scaleHAProxySrvs_grows_to_minimum_witness:
  "distinct (map fst [(''10.0.0.1'', \<lparr>addr_Address = ''10.0.0.1'', addr_Port = 80\<rparr>)])
   \<and> int (length ([] :: Pool)) < fst (srvSlots_of (\<lambda>a. if a = ''scale-server-slots'' then ''2'' else ''''))
   \<and> scale_pool (scaleHAProxySrvs (\<lambda>a. if a = ''scale-server-slots'' then ''2'' else '''')
         [(''10.0.0.1'', \<lparr>addr_Address = ''10.0.0.1'', addr_Port = 80\<rparr>)] [])
      = [\<lparr>Name = ''SRV_1'', Address = ''10.0.0.1'', Modified = True, Port = 80\<rparr>,
         \<lparr>Name = ''SRV_2'', Address = '''', Modified = True, Port = 0\<rparr>]
   \<and> scale_reload (scaleHAProxySrvs (\<lambda>a. if a = ''scale-server-slots'' then ''2'' else '''')
         [(''10.0.0.1'', \<lparr>addr_Address = ''10.0.0.1'', addr_Port = 80\<rparr>)] [])
   \<and> scale_addresses (scaleHAProxySrvs (\<lambda>a. if a = ''scale-server-slots'' then ''2'' else '''')
         [(''10.0.0.1'', \<lparr>addr_Address = ''10.0.0.1'', addr_Port = 80\<rparr>)] []) = []"
proof -
  let ?gv = "\<lambda>a. if a = ''scale-server-slots'' then ''2'' else ''''"
  let ?al = "[(''10.0.0.1'', \<lparr>addr_Address = ''10.0.0.1'', addr_Port = 80\<rparr>)]"
  let ?r = "scaleHAProxySrvs ?gv ?al []"
  have slots: "srvSlots_of ?gv = (2, [])"
    by (simp add: srvSlots_of_def Atoi_def digit_value_def)
  have k: "distinct (map fst ?al)" by simp
  have short: "int (length ([] :: Pool)) < fst (srvSlots_of ?gv)" by (simp add: slots)
  note T = scaleHAProxySrvs_grows_to_minimum[OF k refl short refl]
  have names: "Sprintf_SRV (Suc 0) = ''SRV_1''" "Sprintf_SRV (Suc (Suc 0)) = ''SRV_2''"
    by (simp_all add: Sprintf_SRV_def decimal.simps digit_char_def)
  from T have len: "length (scale_pool ?r) = 2" by (simp add: slots)
  from T len have s0: "scale_pool ?r ! 0 = \<lparr>Name = ''SRV_1'', Address = ''10.0.0.1'', Modified = True, Port = 80\<rparr>"
    by (simp add: names slots numeral_2_eq_2 All_less_Suc)
  from T len have s1: "scale_pool ?r ! 1 = \<lparr>Name = ''SRV_2'', Address = '''', Modified = True, Port = 0\<rparr>"
    by (simp add: names slots numeral_2_eq_2 All_less_Suc)
  have "scale_pool ?r = [\<lparr>Name = ''SRV_1'', Address = ''10.0.0.1'', Modified = True, Port = 80\<rparr>,
         \<lparr>Name = ''SRV_2'', Address = '''', Modified = True, Port = 0\<rparr>]"
    using len s0 s1 by (intro nth_equalityI) (auto simp: less_Suc_eq numeral_2_eq_2)
  then show ?thesis using T k short by simp
qed

text \<open>
  Claim C4 as stated fails. The annotations are read in the order
  \<open>servers-increment\<close>, \<open>server-slots\<close>, \<open>scale-server-slots\<close>: with
  \<open>servers-increment = 3\<close> and \<open>scale-server-slots = 5\<close> the minimum is 3, so a
  legacy alias takes precedence over the explicit setting; and with
  \<open>servers-increment = abc\<close>, which fails to parse, the loop goes on to the next
  annotation and the minimum is 5, not 0.
\<close>

theorem srvSlots_precedence_counterexample:
  "fst (srvSlots_of (\<lambda>a. if a = ''servers-increment'' then ''3''
                          else if a = ''scale-server-slots'' then ''5'' else '''')) = 3
   \<and> fst (srvSlots_of (\<lambda>a. if a = ''servers-increment'' then ''abc''
                          else if a = ''scale-server-slots'' then ''5'' else '''')) = 5"
  by (simp add: srvSlots_of_def Atoi_def digit_value_def)

text \<open>
  Claim C4, amended. The minimum slot count is the value of the first annotation, in the
  order \<open>servers-increment\<close>, \<open>server-slots\<close>, \<open>scale-server-slots\<close>, whose value
  parses as an integer (an empty value does not); it is 0 when none does. The values
  handed to the logger are the non-empty values that failed to parse before the first
  one that parsed, and this is the log of the scaling operation: a failure is never
  fatal. When the resolved minimum is 0, the pool scales only to match the live
  addresses: every address gets a new slot appended at the end of the pool.
\<close>

theorem srvSlots_first_parsable_annotation:
  assumes keys: "distinct (map fst newAddresses)"
    and r: "r = scaleHAProxySrvs GetValue newAddresses pool"
  shows "srvSlots_of GetValue =
           ((case List.map_filter (\<lambda>a. Atoi (GetValue a))
                    [''servers-increment'', ''server-slots'', ''scale-server-slots''] of
               [] \<Rightarrow> 0 | v # _ \<Rightarrow> v),
            map ErrorAtoi (filter (\<lambda>v. v \<noteq> '''')
              (map GetValue (takeWhile (\<lambda>a. Atoi (GetValue a) = None)
                 [''servers-increment'', ''server-slots'', ''scale-server-slots'']))))
       \<and> scale_log r = snd (srvSlots_of GetValue)
       \<and> (fst (srvSlots_of GetValue) = 0 \<longrightarrow>
            scale_pool r =
              pool @ map (\<lambda>j. \<lparr>Name = Sprintf_SRV (length pool + j + 1),
                                  Address = fst (newAddresses ! j), Modified = True,
                                  Port = addr_Port (snd (newAddresses ! j))\<rparr>)
                         [0 ..< length newAddresses])"
proof -
  have "scale_pool r =
              pool @ map (\<lambda>j. \<lparr>Name = Sprintf_SRV (length pool + j + 1),
                                  Address = fst (newAddresses ! j), Modified = True,
                                  Port = addr_Port (snd (newAddresses ! j))\<rparr>)
                         [0 ..< length newAddresses]"
    if "fst (srvSlots_of GetValue) = 0"
    unfolding r using that by (intro scaleHAProxySrvs_no_growth(1)[OF keys]) simp
  moreover have "scale_log r = snd (srvSlots_of GetValue)"
    unfolding r by (rule scale_log_eq)
  ultimately show ?thesis
    using srvSlots_of_char[of GetValue] by (intro conjI impI)
qed

theorem srvSlots_first_parsable_annotation_witness:
  "distinct (map fst [(''10.0.0.1'', \<lparr>addr_Address = ''10.0.0.1'', addr_Port = 80\<rparr>)])
   \<and> srvSlots_of (\<lambda>a. if a = ''scale-server-slots'' then ''abc'' else '''') = (0, [ErrorAtoi ''abc''])
   \<and> scale_pool (scaleHAProxySrvs (\<lambda>a. if a = ''scale-server-slots'' then ''abc'' else '''')
        [(''10.0.0.1'', \<lparr>addr_Address = ''10.0.0.1'', addr_Port = 80\<rparr>)] [])
      = [\<lparr>Name = ''SRV_1'', Address = ''10.0.0.1'', Modified = True, Port = 80\<rparr>]"
proof -
  let ?gv = "\<lambda>a. if a = ''scale-server-slots'' then ''abc'' else ''''"
  let ?al = "[(''10.0.0.1'', \<lparr>addr_Address = ''10.0.0.1'', addr_Port = 80\<rparr>)]"
  have k: "distinct (map fst ?al)" by simp
  have at: "Atoi ''abc'' = None" "Atoi '''' = None" by (simp_all add: Atoi_def digit_value_def)
  have name: "Sprintf_SRV (Suc 0) = ''SRV_1''"
    by (simp add: Sprintf_SRV_def decimal.simps digit_char_def)
  note T = srvSlots_first_parsable_annotation[where GetValue = ?gv and pool = "[]", OF k refl]
  from T have sl: "srvSlots_of ?gv = (0, [ErrorAtoi ''abc''])"
    by (simp add: at List.map_filter_simps)
  with T show ?thesis by (simp add: name)
qed

section \<open>Pool length and slot names along a sequence of calls\<close>

lemma names_update:
  "Name y = Name (pool ! d) \<Longrightarrow> map Name (pool[d := y]) = map Name pool"
  by (cases "d < length pool") (simp_all add: map_update list_update_same_conv list_update_beyond)

lemma disable_step_names: "map Name (fst (disable_step i st)) = map Name (fst st)"
  by (cases st) (simp add: disable_step_def Let_def names_update split: option.split)

lemma fold_disable_step_names: "map Name (fst (fold disable_step is st)) = map Name (fst st)"
  by (induction "is" arbitrary: st) (simp_all add: disable_step_names)

lemma assign_loop_names: "map Name (fst (assign_loop dis pool al)) = map Name pool"
  by (induction dis pool al rule: assign_loop.induct) (simp_all add: names_update)

lemma SyncBackendSrvs_names:
  "map Name (sync_pool (SyncBackendSrvs c b pool al)) = map Name pool"
proof (cases "b = ''''")
  case True
  then show ?thesis by (simp add: SyncBackendSrvs_def)
next
  case False
  obtain srvs1 addrs1 disabled where d: "disable_loop pool al = (srvs1, addrs1, disabled)"
    by (cases "disable_loop pool al")
  have n1: "map Name srvs1 = map Name pool"
    using fold_disable_step_names[of "[0 ..< length pool]" "(pool, al, [])"] d
    by (simp add: disable_loop_def)
  have "sync_pool (SyncBackendSrvs c b pool al) = fst (assign_loop disabled srvs1 addrs1)"
    using False by (simp add: SyncBackendSrvs_def d split: prod.splits)
  then show ?thesis by (simp add: assign_loop_names n1)
qed

lemma apply_op_names: "prefix (map Name pool) (map Name (apply_op op pool))"
proof (cases op)
  case (Scale GetValue al)
  then show ?thesis using scaleHAProxySrvs_grows[of pool GetValue al] by simp
next
  case (Synchronize c b al)
  then show ?thesis by (simp add: SyncBackendSrvs_names)
qed

lemma run_ops_names: "prefix (map Name pool) (map Name (run_ops ops pool))"
proof (induction ops arbitrary: pool)
  case Nil
  then show ?case by (simp add: run_ops_def)
next
  case (Cons op ops)
  have "prefix (map Name pool) (map Name (apply_op op pool))" by (rule apply_op_names)
  also have "prefix (map Name (apply_op op pool)) (map Name (run_ops ops (apply_op op pool)))"
    by (rule Cons.IH)
  finally show ?case by (simp add: run_ops_def)
qed

lemma run_ops_append: "run_ops (ops @ ops') pool = run_ops ops' (run_ops ops pool)"
  by (simp add: run_ops_def)

text \<open>
  Claim C7. Along every sequence of scaling and synchronization calls on one pool
  (\<open>ops\<close> followed by \<open>ops'\<close>, from any pool and with any arguments), the pool never
  gets shorter, and every slot that is in the pool at some point keeps its name through
  all later calls: slots are appended or changed in place, never removed or renamed.
\<close>

theorem pool_never_shrinks_names_stable:
  "length (run_ops ops pool) \<le> length (run_ops (ops @ ops') pool) \<and>
   (\<forall>i < length (run_ops ops pool).
      Name (run_ops (ops @ ops') pool ! i) = Name (run_ops ops pool ! i))"
proof -
  let ?p = "run_ops ops pool" and ?q = "run_ops (ops @ ops') pool"
  have pre: "prefix (map Name ?p) (map Name ?q)"
    unfolding run_ops_append by (rule run_ops_names)
  then have len: "length ?p \<le> length ?q" using prefix_length_le by fastforce
  have "Name (?q ! i) = Name (?p ! i)" if i: "i < length ?p" for i
  proof -
    from pre obtain zs where zs: "map Name ?q = map Name ?p @ zs" by (auto simp: prefix_def)
    have "Name (?q ! i) = map Name ?q ! i" using i len by simp
    also have "\<dots> = map Name ?p ! i" using i by (simp add: zs nth_append)
    also have "\<dots> = Name (?p ! i)" using i by simp
    finally show ?thesis .
  qed
  with len show ?thesis by blast
qed

theorem pool_never_shrinks_names_stable_witness:
  "length (run_ops [Scale (\<lambda>a. '''') [(''10.0.0.1'', \<lparr>addr_Address = ''10.0.0.1'', addr_Port = 80\<rparr>)]] [])
     \<le> length (run_ops ([Scale (\<lambda>a. '''') [(''10.0.0.1'', \<lparr>addr_Address = ''10.0.0.1'', addr_Port = 80\<rparr>)]]
          @ [Synchronize \<lparr>respond = \<lambda>_ _. None, ServerGet = \<lambda>_ _. (None :: unit Server option)\<rparr> ''bk'' []]) [])
   \<and> run_ops [Scale (\<lambda>a. '''') [(''10.0.0.1'', \<lparr>addr_Address = ''10.0.0.1'', addr_Port = 80\<rparr>)]] []
       = [\<lparr>Name = ''SRV_1'', Address = ''10.0.0.1'', Modified = True, Port = 80\<rparr>]
   \<and> Name (run_ops ([Scale (\<lambda>a. '''') [(''10.0.0.1'', \<lparr>addr_Address = ''10.0.0.1'', addr_Port = 80\<rparr>)]]
          @ [Synchronize \<lparr>respond = \<lambda>_ _. None, ServerGet = \<lambda>_ _. (None :: unit Server option)\<rparr> ''bk'' []]) [] ! 0)
       = ''SRV_1''"
proof -
  let ?sc = "Scale (\<lambda>a. '''') [(''10.0.0.1'', \<lparr>addr_Address = ''10.0.0.1'', addr_Port = 80\<rparr>)]"
  let ?sy = "Synchronize \<lparr>respond = \<lambda>_ _. None, ServerGet = \<lambda>_ _. (None :: unit Server option)\<rparr> ''bk'' []"
  have name: "Sprintf_SRV (Suc 0) = ''SRV_1''"
    by (simp add: Sprintf_SRV_def decimal.simps digit_char_def)
  have one: "run_ops [?sc] [] = [\<lparr>Name = ''SRV_1'', Address = ''10.0.0.1'', Modified = True, Port = 80\<rparr>]"
    by (simp add: run_ops_def scaleHAProxySrvs_def srvSlots_of_def grow_loop.simps name)
  from pool_never_shrinks_names_stable[of "[?sc]" "[]" "[?sy]"] show ?thesis
    by (simp add: one)
qed

section \<open>The calls of a pass\<close>

lemma updateHAProxySrv_char:
  "updateHAProxySrv client b srv srvSlot (Port srvSlot) (calls, logged) =
     (case respond client calls (BackendServerEdit b (edit_target srv srvSlot)) of
        None \<Rightarrow> (calls @ [BackendServerEdit b (edit_target srv srvSlot)], logged)
      | Some msg \<Rightarrow>
          if strings_Contains msg ''does not exist''
          then (calls @ [BackendServerEdit b (edit_target srv srvSlot),
                         BackendServerCreate b (edit_target srv srvSlot)],
                logged @ [ErrorAPI (respond client (calls @ [BackendServerEdit b (edit_target srv srvSlot)])
                                     (BackendServerCreate b (edit_target srv srvSlot)))])
          else (calls @ [BackendServerEdit b (edit_target srv srvSlot)], logged))"
  by (cases "Address srvSlot = []")
    (simp_all add: updateHAProxySrv_def edit_target_def Let_def split: option.split)

lemma updateHAProxySrv_edits:
  "List.map_filter edited (fst (updateHAProxySrv client b srv srvSlot (Port srvSlot) (calls, logged)))
     = List.map_filter edited calls @ [edit_target srv srvSlot]"
  by (simp add: updateHAProxySrv_char List.map_filter_def split: option.split)

lemma fold_update_edits:
  "List.map_filter edited
     (fst (fold (\<lambda>srvSlot st. if P srvSlot
                                then updateHAProxySrv client b srv srvSlot (Port srvSlot) st else st)
             slots (calls, logged)))
   = List.map_filter edited calls @ map (edit_target srv) (filter P slots)"
proof (induction slots arbitrary: calls logged)
  case Nil
  then show ?case by simp
next
  case (Cons slot slots)
  show ?case
  proof (cases "P slot")
    case False
    then show ?thesis by (simp add: Cons.IH)
  next
    case True
    obtain calls' logged' where u: "updateHAProxySrv client b srv slot (Port slot) (calls, logged) = (calls', logged')"
      by (cases "updateHAProxySrv client b srv slot (Port slot) (calls, logged)")
    have e: "List.map_filter edited calls' = List.map_filter edited calls @ [edit_target srv slot]"
      using updateHAProxySrv_edits[of client b srv slot calls logged] u by simp
    show ?thesis using True by (simp add: u Cons.IH e)
  qed
qed

lemma fold_update_none:
  "\<forall>slot \<in> set slots. \<not> P slot \<Longrightarrow>
   fold (\<lambda>srvSlot st. if P srvSlot
                        then updateHAProxySrv client b srv srvSlot (Port srvSlot) st else st)
        slots st = st"
  by (induction slots) simp_all

lemma SyncBackendSrvs_push:
  assumes "b \<noteq> ''''"
  shows "sync_calls (SyncBackendSrvs c b pool al) =
           concat (map (runtime_calls b) (filter Modified (sync_pool (SyncBackendSrvs c b pool al))))"
    and "sync_error (SyncBackendSrvs c b pool al) =
           Errors_Result (failures c [] (sync_calls (SyncBackendSrvs c b pool al)))"
    and "sync_pool (SyncBackendSrvs c b pool al) =
           fst (assign_loop (snd (snd (disable_loop pool al))) (fst (disable_loop pool al))
                  (fst (snd (disable_loop pool al))))"
  using assms by (simp_all add: SyncBackendSrvs_def push_loop_char split: prod.splits)

text \<open>
  Claim C5 as stated fails on the edit path. A slot that \<open>SyncBackendSrvs\<close> has
  disabled keeps its port; when \<open>HandleEndpoints\<close> pushes it, the server it sends has
  address 127.0.0.1 and maintenance enabled, but the port of the slot, here 80, not 0.
\<close>

theorem disabled_slot_edit_port_counterexample:
  "he_calls (HandleEndpoints
       \<lparr>respond = \<lambda>_ _. None,
        ServerGet = \<lambda>_ _. Some \<lparr>srv_Name = ''SRV_1'', srv_Address = '''', srv_Port = None,
                                  srv_Maintenance = '''', srv_Options = ()\<rparr>\<rparr>
       (\<lambda>a. '''')
       \<lparr>srv_Name = '''', srv_Address = '''', srv_Port = None, srv_Maintenance = '''', srv_Options = ()\<rparr>
       \<lparr>service_DNS = '''', backendName = ''bk'', newBackend = False\<rparr>
       (Some \<lparr>cfg_BackendName = ''bk'', cfg_NewAddresses = [],
              cfg_HAProxySrvs = Some (sync_pool (SyncBackendSrvs
                  \<lparr>respond = \<lambda>_ _. None, ServerGet = \<lambda>_ _. (None :: unit Server option)\<rparr> ''bk''
                  [\<lparr>Name = ''SRV_1'', Address = ''10.0.0.1'', Modified = False, Port = 80\<rparr>] []))\<rparr>))
   = [BackendServerEdit ''bk''
        \<lparr>srv_Name = ''SRV_1'', srv_Address = ''127.0.0.1'', srv_Port = Some 80,
         srv_Maintenance = ''enabled'', srv_Options = ()\<rparr>]"
  by (simp add: HandleEndpoints_def Let_def scaleHAProxySrvs_def srvSlots_of_def grow_loop.simps
        deep_Equal_differs_def updateHAProxySrv_def SyncBackendSrvs_def disable_loop_def
        disable_step_def push_target_def)

text \<open>
  Claim C5, amended. On the runtime path (\<open>SyncBackendSrvs\<close>) the calls of a pass are,
  for every slot of the resulting pool with \<open>Modified\<close> set and in pool order, the
  address mutation followed by the state mutation: address 127.0.0.1, port 0 and state
  \<open>maint\<close> for a disabled slot, the address and port of the slot and state \<open>ready\<close>
  otherwise. On the edit path (\<open>updateHAProxySrv\<close>) the first call for a slot is one
  edit of the server: address 127.0.0.1 and maintenance \<open>enabled\<close> for a disabled
  slot, the address of the slot and maintenance \<open>disabled\<close> otherwise, in both cases
  with the port the caller passes, which is the port stored in the slot.
\<close>

theorem pushed_targets_by_path:
  assumes name: "BackendName \<noteq> ''''"
  shows "sync_calls (SyncBackendSrvs c BackendName pool newAddresses) =
           concat (map (\<lambda>srv.
               if Address srv = ''''
               then [SetServerAddr BackendName (Name srv) ''127.0.0.1'' 0,
                     SetServerState BackendName (Name srv) ''maint'']
               else [SetServerAddr BackendName (Name srv) (Address srv) (sint (Port srv)),
                     SetServerState BackendName (Name srv) ''ready''])
             (filter Modified (sync_pool (SyncBackendSrvs c BackendName pool newAddresses))))
       \<and> (\<exists>rest. fst (updateHAProxySrv client b srv srvSlot port (calls, logged)) =
             calls @ BackendServerEdit b
               (srv\<lparr>srv_Name := Name srvSlot, srv_Port := Some port,
                    srv_Address := (if Address srvSlot = '''' then ''127.0.0.1'' else Address srvSlot),
                    srv_Maintenance := (if Address srvSlot = '''' then ''enabled'' else ''disabled'')\<rparr>)
               # rest)"
proof -
  have rc: "runtime_calls BackendName = (\<lambda>srv.
               if Address srv = ''''
               then [SetServerAddr BackendName (Name srv) ''127.0.0.1'' 0,
                     SetServerState BackendName (Name srv) ''maint'']
               else [SetServerAddr BackendName (Name srv) (Address srv) (sint (Port srv)),
                     SetServerState BackendName (Name srv) ''ready''])"
    by (simp add: runtime_calls_def fun_eq_iff)
  have A: "sync_calls (SyncBackendSrvs c BackendName pool newAddresses) =
           concat (map (\<lambda>srv.
               if Address srv = ''''
               then [SetServerAddr BackendName (Name srv) ''127.0.0.1'' 0,
                     SetServerState BackendName (Name srv) ''maint'']
               else [SetServerAddr BackendName (Name srv) (Address srv) (sint (Port srv)),
                     SetServerState BackendName (Name srv) ''ready''])
             (filter Modified (sync_pool (SyncBackendSrvs c BackendName pool newAddresses))))"
    using SyncBackendSrvs_push(1)[OF name, of c pool newAddresses] by (simp only: rc)
  have B: "\<exists>rest. fst (updateHAProxySrv client b srv srvSlot port (calls, logged)) =
             calls @ BackendServerEdit b
               (srv\<lparr>srv_Name := Name srvSlot, srv_Port := Some port,
                    srv_Address := (if Address srvSlot = '''' then ''127.0.0.1'' else Address srvSlot),
                    srv_Maintenance := (if Address srvSlot = '''' then ''enabled'' else ''disabled'')\<rparr>)
               # rest"
    by (cases "Address srvSlot = []")
      (simp_all add: updateHAProxySrv_def Let_def split: option.split)
  from A B show ?thesis by (rule conjI)
qed

theorem pushed_targets_by_path_witness:
  "''bk'' \<noteq> ''''
   \<and> sync_calls (SyncBackendSrvs \<lparr>respond = \<lambda>_ _. None, ServerGet = \<lambda>_ _. (None :: unit Server option)\<rparr> ''bk''
           [\<lparr>Name = ''SRV_1'', Address = ''10.0.0.1'', Modified = False, Port = 80\<rparr>,
            \<lparr>Name = ''SRV_2'', Address = '''', Modified = False, Port = 0\<rparr>]
           [(''10.0.0.2'', \<lparr>addr_Address = ''10.0.0.2'', addr_Port = 80\<rparr>)])
      = [SetServerAddr ''bk'' ''SRV_1'' ''10.0.0.2'' 80, SetServerState ''bk'' ''SRV_1'' ''ready'',
         SetServerAddr ''bk'' ''SRV_2'' ''127.0.0.1'' 0, SetServerState ''bk'' ''SRV_2'' ''maint'']
   \<and> (\<exists>rest. fst (updateHAProxySrv \<lparr>respond = \<lambda>_ _. None, ServerGet = \<lambda>_ _. None\<rparr> ''bk''
          \<lparr>srv_Name = '''', srv_Address = '''', srv_Port = None, srv_Maintenance = '''', srv_Options = ()\<rparr>
          \<lparr>Name = ''SRV_2'', Address = '''', Modified = True, Port = 0\<rparr> 0 ([], []))
        = BackendServerEdit ''bk''
            \<lparr>srv_Name = ''SRV_2'', srv_Address = ''127.0.0.1'', srv_Port = Some 0,
             srv_Maintenance = ''enabled'', srv_Options = ()\<rparr> # rest)"
proof -
  let ?c = "\<lparr>respond = \<lambda>_ _. None, ServerGet = \<lambda>_ _. (None :: unit Server option)\<rparr>"
  let ?pool = "[\<lparr>Name = ''SRV_1'', Address = ''10.0.0.1'', Modified = False, Port = 80\<rparr>,
            \<lparr>Name = ''SRV_2'', Address = '''', Modified = False, Port = 0\<rparr>]"
  let ?al = "[(''10.0.0.2'', \<lparr>addr_Address = ''10.0.0.2'', addr_Port = 80\<rparr>)]"
  have n: "''bk'' \<noteq> ''''" by simp
  have p: "sync_pool (SyncBackendSrvs ?c ''bk'' ?pool ?al) =
      [\<lparr>Name = ''SRV_1'', Address = ''10.0.0.2'', Modified = True, Port = 80\<rparr>,
       \<lparr>Name = ''SRV_2'', Address = '''', Modified = True, Port = 0\<rparr>]"
    by (simp add: SyncBackendSrvs_def disable_loop_def disable_step_def upt_rec push_target_def)
  from pushed_targets_by_path[OF n, of ?c ?pool ?al ?c "''bk''"
      "\<lparr>srv_Name = '''', srv_Address = '''', srv_Port = None, srv_Maintenance = '''', srv_Options = ()\<rparr>"
      "\<lparr>Name = ''SRV_2'', Address = '''', Modified = True, Port = 0\<rparr>" 0 "[]" "[]"]
  show ?thesis by (simp add: p)
qed

text \<open>
  Claim C6. A pass of \<open>HandleEndpoints\<close> over a namespace that is in the store leaves
  the configuration with the pool \<open>pool'\<close>: the pool it found, scaled by
  \<open>scaleHAProxySrvs\<close> when the service has no DNS name, so never shorter than before.
  When the backend is new, or the backend existed and the server template differs from
  the server read back from the client (\<open>changed\<close>), every slot of that pool is pushed,
  one edit per slot in pool order, whether or not it is marked; otherwise exactly the
  marked slots are pushed. The pass returns reload exactly when the pool was scaled
  (it is longer than before) or the template changed.
\<close>

theorem HandleEndpoints_push_all_and_reload:
  fixes client :: "'o HAProxyClient"
  assumes r: "r = HandleEndpoints client GetValue annotated s (Some cfg)"
    and pool: "pool = (case cfg_HAProxySrvs cfg of None \<Rightarrow> [] | Some srvs \<Rightarrow> srvs)"
    and pool': "pool' = (if service_DNS s = ''''
                         then scale_pool (scaleHAProxySrvs GetValue (cfg_NewAddresses cfg) pool)
                         else pool)"
    and srv: "srv = (if newBackend s then annotated else annotated\<lparr>srv_Name := ''SRV_1''\<rparr>)"
    and changed: "changed = (\<not> newBackend s \<and>
        deep_Equal_differs (ServerGet client ''SRV_1'' (backendName s)) (annotated\<lparr>srv_Name := ''SRV_1''\<rparr>))"
  shows "he_config r =
           Some \<lparr>cfg_BackendName = backendName s,
                 cfg_NewAddresses =
                   (if service_DNS s = ''''
                    then scale_addresses (scaleHAProxySrvs GetValue (cfg_NewAddresses cfg) pool)
                    else cfg_NewAddresses cfg),
                 cfg_HAProxySrvs = Some pool'\<rparr>
       \<and> length pool \<le> length pool'
       \<and> (newBackend s \<or> changed \<longrightarrow>
            List.map_filter edited (he_calls r) = map (edit_target srv) pool')
       \<and> (\<not> (newBackend s \<or> changed) \<longrightarrow>
            List.map_filter edited (he_calls r) = map (edit_target srv) (filter Modified pool'))
       \<and> he_reload r = (length pool < length pool' \<or> changed)"
proof -
  define scaled where "scaled = (if service_DNS s = '''' then scaleHAProxySrvs GetValue (cfg_NewAddresses cfg) pool
                        else \<lparr>scale_reload = False, scale_addresses = cfg_NewAddresses cfg,
                              scale_pool = pool, scale_log = []\<rparr>)"
  let ?P = "\<lambda>srvSlot. Modified srvSlot \<or> newBackend s \<or> changed"
  let ?F = "fold (\<lambda>srvSlot st. if ?P srvSlot
                     then updateHAProxySrv client (backendName s) srv srvSlot (Port srvSlot) st
                     else st) (scale_pool scaled) ([], scale_log scaled)"
  have srv': "(if \<not> newBackend s then annotated\<lparr>srv_Name := ''SRV_1''\<rparr> else annotated) = srv"
    by (simp add: srv)
  have ch': "(\<not> newBackend s \<and> deep_Equal_differs (ServerGet client ''SRV_1'' (backendName s)) srv) = changed"
    by (auto simp: changed srv)
  have R: "r = \<lparr>he_reload = (scale_reload scaled \<or> changed),
               he_config = Some \<lparr>cfg_BackendName = backendName s,
                                  cfg_NewAddresses = scale_addresses scaled,
                                  cfg_HAProxySrvs = Some (scale_pool scaled)\<rparr>,
               he_calls = fst ?F, he_log = snd ?F\<rparr>"
    unfolding r HandleEndpoints_def
    by (simp only: option.case Let_def srv' ch' pool[symmetric] scaled_def[symmetric])
       (simp add: case_prod_beta)
  have p': "pool' = scale_pool scaled" by (simp add: pool' scaled_def)
  have a': "scale_addresses scaled =
        (if service_DNS s = ''''
         then scale_addresses (scaleHAProxySrvs GetValue (cfg_NewAddresses cfg) pool)
         else cfg_NewAddresses cfg)" by (simp add: scaled_def)
  have cf: "he_config r =
           Some \<lparr>cfg_BackendName = backendName s,
                 cfg_NewAddresses =
                   (if service_DNS s = ''''
                    then scale_addresses (scaleHAProxySrvs GetValue (cfg_NewAddresses cfg) pool)
                    else cfg_NewAddresses cfg),
                 cfg_HAProxySrvs = Some pool'\<rparr>"
    by (simp only: R HandleResult.simps p' a')
  have le: "length pool \<le> length pool'"
    unfolding p' scaled_def using scaleHAProxySrvs_grows[of pool GetValue "cfg_NewAddresses cfg"]
    by simp
  have sc: "scale_reload scaled = (length pool < length pool')"
    unfolding p' scaled_def using scaleHAProxySrvs_grows[of pool GetValue "cfg_NewAddresses cfg"]
    by simp
  have ed: "List.map_filter edited (he_calls r) = map (edit_target srv) (filter ?P pool')"
    unfolding p' using fold_update_edits[of ?P client "backendName s" srv "scale_pool scaled" "[]" "scale_log scaled"]
    by (simp add: R List.map_filter_simps)
  have "he_reload r = (length pool < length pool' \<or> changed)"
    by (simp add: R sc)
  moreover have "List.map_filter edited (he_calls r) = map (edit_target srv) pool'"
    if "newBackend s \<or> changed"
    using that ed by auto
  moreover have "List.map_filter edited (he_calls r) = map (edit_target srv) (filter Modified pool')"
    if "\<not> (newBackend s \<or> changed)"
  proof -
    have "filter ?P pool' = filter Modified pool'" using that by (intro filter_cong) auto
    then show ?thesis using ed by simp
  qed
  ultimately show ?thesis using cf le by blast
qed

theorem HandleEndpoints_push_all_and_reload_witness:
  "he_config (HandleEndpoints \<lparr>respond = \<lambda>_ _. None, ServerGet = \<lambda>_ _. None\<rparr> (\<lambda>a. '''')
       \<lparr>srv_Name = '''', srv_Address = '''', srv_Port = None, srv_Maintenance = '''', srv_Options = ()\<rparr>
       \<lparr>service_DNS = '''', backendName = ''bk'', newBackend = True\<rparr>
       (Some \<lparr>cfg_BackendName = '''', cfg_NewAddresses = [],
              cfg_HAProxySrvs = Some [\<lparr>Name = ''SRV_1'', Address = ''10.0.0.1'', Modified = False, Port = 80\<rparr>]\<rparr>))
     = Some \<lparr>cfg_BackendName = ''bk'', cfg_NewAddresses = [],
              cfg_HAProxySrvs = Some [\<lparr>Name = ''SRV_1'', Address = ''10.0.0.1'', Modified = False, Port = 80\<rparr>]\<rparr>
   \<and> List.map_filter edited (he_calls (HandleEndpoints \<lparr>respond = \<lambda>_ _. None, ServerGet = \<lambda>_ _. None\<rparr> (\<lambda>a. '''')
       \<lparr>srv_Name = '''', srv_Address = '''', srv_Port = None, srv_Maintenance = '''', srv_Options = ()\<rparr>
       \<lparr>service_DNS = '''', backendName = ''bk'', newBackend = True\<rparr>
       (Some \<lparr>cfg_BackendName = '''', cfg_NewAddresses = [],
              cfg_HAProxySrvs = Some [\<lparr>Name = ''SRV_1'', Address = ''10.0.0.1'', Modified = False, Port = 80\<rparr>]\<rparr>)))
     = [\<lparr>srv_Name = ''SRV_1'', srv_Address = ''10.0.0.1'', srv_Port = Some 80,
         srv_Maintenance = ''disabled'', srv_Options = ()\<rparr>]
   \<and> \<not> he_reload (HandleEndpoints \<lparr>respond = \<lambda>_ _. None, ServerGet = \<lambda>_ _. None\<rparr> (\<lambda>a. '''')
       \<lparr>srv_Name = '''', srv_Address = '''', srv_Port = None, srv_Maintenance = '''', srv_Options = ()\<rparr>
       \<lparr>service_DNS = '''', backendName = ''bk'', newBackend = True\<rparr>
       (Some \<lparr>cfg_BackendName = '''', cfg_NewAddresses = [],
              cfg_HAProxySrvs = Some [\<lparr>Name = ''SRV_1'', Address = ''10.0.0.1'', Modified = False, Port = 80\<rparr>]\<rparr>))
   \<and> List.map_filter edited (he_calls (HandleEndpoints \<lparr>respond = \<lambda>_ _. None, ServerGet = \<lambda>_ _. None\<rparr> (\<lambda>a. '''')
       \<lparr>srv_Name = '''', srv_Address = '''', srv_Port = None, srv_Maintenance = '''', srv_Options = ()\<rparr>
       \<lparr>service_DNS = '''', backendName = ''bk'', newBackend = False\<rparr>
       (Some \<lparr>cfg_BackendName = ''bk'', cfg_NewAddresses = [],
              cfg_HAProxySrvs = Some [\<lparr>Name = ''SRV_1'', Address = ''10.0.0.1'', Modified = False, Port = 80\<rparr>]\<rparr>)))
     = [\<lparr>srv_Name = ''SRV_1'', srv_Address = ''10.0.0.1'', srv_Port = Some 80,
         srv_Maintenance = ''disabled'', srv_Options = ()\<rparr>]
   \<and> he_reload (HandleEndpoints \<lparr>respond = \<lambda>_ _. None, ServerGet = \<lambda>_ _. None\<rparr> (\<lambda>a. '''')
       \<lparr>srv_Name = '''', srv_Address = '''', srv_Port = None, srv_Maintenance = '''', srv_Options = ()\<rparr>
       \<lparr>service_DNS = '''', backendName = ''bk'', newBackend = False\<rparr>
       (Some \<lparr>cfg_BackendName = ''bk'', cfg_NewAddresses = [],
              cfg_HAProxySrvs = Some [\<lparr>Name = ''SRV_1'', Address = ''10.0.0.1'', Modified = False, Port = 80\<rparr>]\<rparr>))"
proof -
  let ?c = "\<lparr>respond = \<lambda>_ _. None, ServerGet = \<lambda>_ _. None\<rparr> :: unit HAProxyClient"
  let ?ann = "\<lparr>srv_Name = '''', srv_Address = '''', srv_Port = None, srv_Maintenance = '''', srv_Options = ()\<rparr>"
  let ?new = "\<lparr>service_DNS = '''', backendName = ''bk'', newBackend = True\<rparr>"
  let ?old = "\<lparr>service_DNS = '''', backendName = ''bk'', newBackend = False\<rparr>"
  let ?pool = "[\<lparr>Name = ''SRV_1'', Address = ''10.0.0.1'', Modified = False, Port = 80\<rparr>]"
  let ?cfg0 = "\<lparr>cfg_BackendName = '''', cfg_NewAddresses = [], cfg_HAProxySrvs = Some ?pool\<rparr>"
  let ?cfg1 = "\<lparr>cfg_BackendName = ''bk'', cfg_NewAddresses = [], cfg_HAProxySrvs = Some ?pool\<rparr>"
  have sc: "scaleHAProxySrvs (\<lambda>a. '''') [] ?pool =
      \<lparr>scale_reload = False, scale_addresses = [], scale_pool = ?pool, scale_log = []\<rparr>"
    by (simp add: scaleHAProxySrvs_def srvSlots_of_def grow_loop.simps)
  note T0 = HandleEndpoints_push_all_and_reload[where client = ?c and GetValue = "\<lambda>a. ''''"
      and annotated = ?ann and s = ?new and cfg = ?cfg0, OF refl refl refl refl refl]
  note T1 = HandleEndpoints_push_all_and_reload[where client = ?c and GetValue = "\<lambda>a. ''''"
      and annotated = ?ann and s = ?old and cfg = ?cfg1, OF refl refl refl refl refl]
  from T0 T1 show ?thesis
    by (simp add: sc deep_Equal_differs_def edit_target_def)
qed

lemma mark_update:
  "k < length pool \<Longrightarrow> Modified (pool ! k) \<Longrightarrow> Modified y \<Longrightarrow> Modified (pool[i := y] ! k)"
  by (cases "k = i") simp_all

lemma disable_step_marks:
  "length (fst (disable_step i st)) = length (fst st) \<and>
   (\<forall>k < length (fst st). Modified (fst st ! k) \<longrightarrow> Modified (fst (disable_step i st) ! k))"
  by (cases st) (auto simp: disable_step_def Let_def mark_update split: option.split)

lemma fold_disable_step_marks:
  "length (fst (fold disable_step is st)) = length (fst st) \<and>
   (\<forall>k < length (fst st). Modified (fst st ! k) \<longrightarrow> Modified (fst (fold disable_step is st) ! k))"
proof (induction "is" arbitrary: st)
  case Nil
  then show ?case by simp
next
  case (Cons i "is")
  from Cons.IH[of "disable_step i st"] disable_step_marks[of i st] show ?case by simp
qed

lemma assign_loop_marks:
  "k < length pool \<Longrightarrow> Modified (pool ! k) \<Longrightarrow> Modified (fst (assign_loop dis pool al) ! k)"
  by (induction dis pool al rule: assign_loop.induct) (simp_all add: mark_update)

lemma SyncBackendSrvs_marks:
  "length (sync_pool (SyncBackendSrvs c b pool al)) = length pool \<and>
   (\<forall>k < length pool. Modified (pool ! k) \<longrightarrow> Modified (sync_pool (SyncBackendSrvs c b pool al) ! k))"
proof (cases "b = ''''")
  case True
  then show ?thesis by (simp add: SyncBackendSrvs_def)
next
  case False
  obtain srvs1 addrs1 disabled where d: "disable_loop pool al = (srvs1, addrs1, disabled)"
    by (cases "disable_loop pool al")
  have m1: "length srvs1 = length pool \<and> (\<forall>k < length pool. Modified (pool ! k) \<longrightarrow> Modified (srvs1 ! k))"
    using fold_disable_step_marks[of "[0 ..< length pool]" "(pool, al, [])"] d
    by (simp add: disable_loop_def)
  have p: "sync_pool (SyncBackendSrvs c b pool al) = fst (assign_loop disabled srvs1 addrs1)"
    using False by (simp add: SyncBackendSrvs_def d split: prod.splits)
  show ?thesis using m1 by (simp add: p assign_loop_length assign_loop_marks)
qed

lemma SyncBackendSrvs_marked_iff:
  fixes c :: "'o HAProxyClient"
  assumes name: "BackendName \<noteq> ''''"
    and keys: "distinct (map fst newAddresses)"
    and k: "k < length pool"
  shows "Modified (sync_pool (SyncBackendSrvs c BackendName pool newAddresses) ! k) \<longleftrightarrow>
           Modified (pool ! k) \<or> \<not> live_at pool newAddresses k"
proof (cases "live_at pool newAddresses k")
  case True
  from sync_pool_slots(2)[OF name keys refl refl refl k True, where c = c] True
  show ?thesis by simp
next
  case False
  let ?reusable = "filter (\<lambda>i. \<not> live_at pool newAddresses i) [0 ..< length pool]"
  have "k \<in> set ?reusable" using k False by simp
  then have "\<exists>j < length ?reusable. ?reusable ! j = k"
    by (simp only: in_set_conv_nth)
  then obtain j where j: "j < length ?reusable" "?reusable ! j = k"
    by blast
  from sync_pool_slots(3)[OF name keys refl refl refl j(1), where c = c] j(2)
  have "Modified (sync_pool (SyncBackendSrvs c BackendName pool newAddresses) ! k)"
    by (simp split: if_splits)
  with False show ?thesis by simp
qed

text \<open>
  Claim C8. In a pass of \<open>SyncBackendSrvs\<close> with a backend name that is not empty, the
  calls issued are the two runtime calls of every marked slot of the resulting pool,
  whatever the client answers, and the resulting pool does not depend on the answers
  either: a failure neither ends the loop nor clears the mark of a slot. A slot that was
  marked on entry is still marked after the pass and its two calls are among the calls
  of the pass; for an address map with distinct keys the slots marked after the pass are
  exactly those that were marked on entry or that the pass disabled or reassigned, so
  a slot whose call failed is still marked for the next pass. The returned error is
  the composite of all errors the client returned to these calls, in order, and nil
  when there was none. On the edit path, when the edit of a slot fails with an error
  whose text contains \<open>does not exist\<close>, \<open>updateHAProxySrv\<close> issues the create call
  with the same server; what the create call returns is handed to the logger, and
  nothing is added to any error of the pass.
\<close>

theorem push_errors_aggregated:
  fixes c c' :: "'o HAProxyClient" and client :: "'p HAProxyClient"
  assumes name: "BackendName \<noteq> ''''"
    and r: "r = SyncBackendSrvs c BackendName pool newAddresses"
    and edit: "edit = BackendServerEdit b (edit_target srv srvSlot)"
    and create: "create = BackendServerCreate b (edit_target srv srvSlot)"
  shows "sync_calls r = concat (map (runtime_calls BackendName) (filter Modified (sync_pool r)))
       \<and> sync_pool r = sync_pool (SyncBackendSrvs c' BackendName pool newAddresses)
       \<and> length (sync_pool r) = length pool
       \<and> (\<forall>k < length pool. Modified (pool ! k) \<longrightarrow>
             Modified (sync_pool r ! k) \<and>
             set (runtime_calls BackendName (sync_pool r ! k)) \<subseteq> set (sync_calls r))
       \<and> (distinct (map fst newAddresses) \<longrightarrow>
            (\<forall>k < length pool. Modified (sync_pool r ! k) \<longleftrightarrow>
                 Modified (pool ! k) \<or> \<not> live_at pool newAddresses k))
       \<and> sync_error r = Errors_Result (failures c [] (sync_calls r))
       \<and> (\<forall>msg. respond client calls edit = Some msg \<and> strings_Contains msg ''does not exist'' \<longrightarrow>
             updateHAProxySrv client b srv srvSlot (Port srvSlot) (calls, logged) =
               (calls @ [edit, create], logged @ [ErrorAPI (respond client (calls @ [edit]) create)]))"
proof -
  have A: "sync_calls r = concat (map (runtime_calls BackendName) (filter Modified (sync_pool r)))"
    unfolding r by (rule SyncBackendSrvs_push(1)[OF name])
  have B: "sync_pool r = sync_pool (SyncBackendSrvs c' BackendName pool newAddresses)"
    unfolding r by (simp only: SyncBackendSrvs_push(3)[OF name])
  have C: "sync_error r = Errors_Result (failures c [] (sync_calls r))"
    unfolding r by (rule SyncBackendSrvs_push(2)[OF name])
  have D: "updateHAProxySrv client b srv srvSlot (Port srvSlot) (calls, logged) =
               (calls @ [edit, create], logged @ [ErrorAPI (respond client (calls @ [edit]) create)])"
    if "respond client calls edit = Some msg" "strings_Contains msg ''does not exist''" for msg
    using that unfolding edit create by (simp add: updateHAProxySrv_char)
  have E: "length (sync_pool r) = length pool"
    unfolding r using SyncBackendSrvs_marks[of c BackendName pool newAddresses] by simp
  have F: "Modified (sync_pool r ! k) \<and>
             set (runtime_calls BackendName (sync_pool r ! k)) \<subseteq> set (sync_calls r)"
    if k: "k < length pool" and m: "Modified (pool ! k)" for k
  proof -
    have mk: "Modified (sync_pool r ! k)"
      unfolding r using SyncBackendSrvs_marks[of c BackendName pool newAddresses] k m by simp
    have "sync_pool r ! k \<in> set (filter Modified (sync_pool r))"
      using mk k E by simp
    then have "set (runtime_calls BackendName (sync_pool r ! k)) \<subseteq> set (sync_calls r)"
      unfolding A by auto
    with mk show ?thesis by simp
  qed
  have G: "Modified (sync_pool r ! k) \<longleftrightarrow> Modified (pool ! k) \<or> \<not> live_at pool newAddresses k"
    if "distinct (map fst newAddresses)" "k < length pool" for k
    unfolding r by (rule SyncBackendSrvs_marked_iff[OF name that])
  from A B C D E F G show ?thesis by blast
qed

theorem push_errors_aggregated_witness:
  "''bk'' \<noteq> ''''
   \<and> sync_calls (SyncBackendSrvs
         \<lparr>respond = \<lambda>hist call. (case call of SetServerAddr _ _ _ _ \<Rightarrow> Some ''timeout'' | _ \<Rightarrow> None),
          ServerGet = \<lambda>_ _. (None :: unit Server option)\<rparr> ''bk''
           [\<lparr>Name = ''SRV_1'', Address = ''10.0.0.1'', Modified = False, Port = 80\<rparr>,
            \<lparr>Name = ''SRV_2'', Address = '''', Modified = False, Port = 0\<rparr>]
           [(''10.0.0.2'', \<lparr>addr_Address = ''10.0.0.2'', addr_Port = 80\<rparr>)])
      = [SetServerAddr ''bk'' ''SRV_1'' ''10.0.0.2'' 80, SetServerState ''bk'' ''SRV_1'' ''ready'',
         SetServerAddr ''bk'' ''SRV_2'' ''127.0.0.1'' 0, SetServerState ''bk'' ''SRV_2'' ''maint'']
   \<and> sync_error (SyncBackendSrvs
         \<lparr>respond = \<lambda>hist call. (case call of SetServerAddr _ _ _ _ \<Rightarrow> Some ''timeout'' | _ \<Rightarrow> None),
          ServerGet = \<lambda>_ _. (None :: unit Server option)\<rparr> ''bk''
           [\<lparr>Name = ''SRV_1'', Address = ''10.0.0.1'', Modified = False, Port = 80\<rparr>,
            \<lparr>Name = ''SRV_2'', Address = '''', Modified = False, Port = 0\<rparr>]
           [(''10.0.0.2'', \<lparr>addr_Address = ''10.0.0.2'', addr_Port = 80\<rparr>)])
      = Some [''timeout'', ''timeout'']
   \<and> Modified (sync_pool (SyncBackendSrvs
         \<lparr>respond = \<lambda>hist call. (case call of SetServerAddr _ _ _ _ \<Rightarrow> Some ''timeout'' | _ \<Rightarrow> None),
          ServerGet = \<lambda>_ _. (None :: unit Server option)\<rparr> ''bk''
           [\<lparr>Name = ''SRV_1'', Address = ''10.0.0.1'', Modified = True, Port = 80\<rparr>]
           [(''10.0.0.1'', \<lparr>addr_Address = ''10.0.0.1'', addr_Port = 80\<rparr>)]) ! 0)
   \<and> sync_calls (SyncBackendSrvs
         \<lparr>respond = \<lambda>hist call. (case call of SetServerAddr _ _ _ _ \<Rightarrow> Some ''timeout'' | _ \<Rightarrow> None),
          ServerGet = \<lambda>_ _. (None :: unit Server option)\<rparr> ''bk''
           [\<lparr>Name = ''SRV_1'', Address = ''10.0.0.1'', Modified = True, Port = 80\<rparr>]
           [(''10.0.0.1'', \<lparr>addr_Address = ''10.0.0.1'', addr_Port = 80\<rparr>)])
      = [SetServerAddr ''bk'' ''SRV_1'' ''10.0.0.1'' 80, SetServerState ''bk'' ''SRV_1'' ''ready'']
   \<and> sync_error (SyncBackendSrvs
         \<lparr>respond = \<lambda>hist call. (case call of SetServerAddr _ _ _ _ \<Rightarrow> Some ''timeout'' | _ \<Rightarrow> None),
          ServerGet = \<lambda>_ _. (None :: unit Server option)\<rparr> ''bk''
           [\<lparr>Name = ''SRV_1'', Address = ''10.0.0.1'', Modified = True, Port = 80\<rparr>]
           [(''10.0.0.1'', \<lparr>addr_Address = ''10.0.0.1'', addr_Port = 80\<rparr>)])
      = Some [''timeout'']
   \<and> updateHAProxySrv
         \<lparr>respond = \<lambda>hist call. (case call of BackendServerEdit _ _ \<Rightarrow> Some ''server SRV_1 does not exist'' | _ \<Rightarrow> None),
          ServerGet = \<lambda>_ _. None\<rparr> ''bk''
         \<lparr>srv_Name = '''', srv_Address = '''', srv_Port = None, srv_Maintenance = '''', srv_Options = ()\<rparr>
         \<lparr>Name = ''SRV_1'', Address = ''10.0.0.1'', Modified = True, Port = 80\<rparr> 80 ([], [])
      = ([BackendServerEdit ''bk'' \<lparr>srv_Name = ''SRV_1'', srv_Address = ''10.0.0.1'', srv_Port = Some 80,
                                     srv_Maintenance = ''disabled'', srv_Options = ()\<rparr>,
          BackendServerCreate ''bk'' \<lparr>srv_Name = ''SRV_1'', srv_Address = ''10.0.0.1'', srv_Port = Some 80,
                                     srv_Maintenance = ''disabled'', srv_Options = ()\<rparr>],
         [ErrorAPI None])"
proof -
  let ?c = "\<lparr>respond = \<lambda>hist call. (case call of SetServerAddr _ _ _ _ \<Rightarrow> Some ''timeout'' | _ \<Rightarrow> None),
          ServerGet = \<lambda>_ _. (None :: unit Server option)\<rparr>"
  let ?client = "\<lparr>respond = \<lambda>hist call. (case call of BackendServerEdit _ _ \<Rightarrow> Some ''server SRV_1 does not exist'' | _ \<Rightarrow> None),
          ServerGet = \<lambda>_ _. (None :: unit Server option)\<rparr>"
  let ?pool = "[\<lparr>Name = ''SRV_1'', Address = ''10.0.0.1'', Modified = False, Port = 80\<rparr>,
            \<lparr>Name = ''SRV_2'', Address = '''', Modified = False, Port = 0\<rparr>]"
  let ?al = "[(''10.0.0.2'', \<lparr>addr_Address = ''10.0.0.2'', addr_Port = 80\<rparr>)]"
  let ?pool2 = "[\<lparr>Name = ''SRV_1'', Address = ''10.0.0.1'', Modified = True, Port = 80\<rparr>]"
  let ?al2 = "[(''10.0.0.1'', \<lparr>addr_Address = ''10.0.0.1'', addr_Port = 80\<rparr>)]"
  let ?ann = "\<lparr>srv_Name = '''', srv_Address = '''', srv_Port = None, srv_Maintenance = '''', srv_Options = ()\<rparr>"
  let ?slot = "\<lparr>Name = ''SRV_1'', Address = ''10.0.0.1'', Modified = True, Port = 80\<rparr>"
  have n: "''bk'' \<noteq> ''''" by simp
  have p: "sync_pool (SyncBackendSrvs ?c ''bk'' ?pool ?al) =
      [\<lparr>Name = ''SRV_1'', Address = ''10.0.0.2'', Modified = True, Port = 80\<rparr>,
       \<lparr>Name = ''SRV_2'', Address = '''', Modified = True, Port = 0\<rparr>]"
    by (simp add: SyncBackendSrvs_def disable_loop_def disable_step_def upt_rec push_target_def
        Let_def)
  have ex: "strings_Contains ''server SRV_1 does not exist'' ''does not exist''" by simp
  note T = push_errors_aggregated[OF n refl refl refl, where c = ?c and c' = ?c and pool = ?pool
      and newAddresses = ?al and client = ?client and b = "''bk''" and srv = ?ann and srvSlot = ?slot
      and calls = "[]" and logged = "[]"]
  note T2 = push_errors_aggregated[OF n refl refl refl, where c = ?c and c' = ?c and pool = ?pool2
      and newAddresses = ?al2 and client = ?client and b = "''bk''" and srv = ?ann and srvSlot = ?slot
      and calls = "[]" and logged = "[]"]
  from T have calls: "sync_calls (SyncBackendSrvs ?c ''bk'' ?pool ?al) =
      [SetServerAddr ''bk'' ''SRV_1'' ''10.0.0.2'' 80, SetServerState ''bk'' ''SRV_1'' ''ready'',
         SetServerAddr ''bk'' ''SRV_2'' ''127.0.0.1'' 0, SetServerState ''bk'' ''SRV_2'' ''maint'']"
    by (simp add: p runtime_calls_def)
  from T have err: "sync_error (SyncBackendSrvs ?c ''bk'' ?pool ?al) = Some [''timeout'', ''timeout'']"
    by (simp add: calls Errors_Result_def)
  from T2 have m2: "Modified (sync_pool (SyncBackendSrvs ?c ''bk'' ?pool2 ?al2) ! 0)"
    by simp
  have p2: "sync_pool (SyncBackendSrvs ?c ''bk'' ?pool2 ?al2) = ?pool2"
    by (simp add: SyncBackendSrvs_def disable_loop_def disable_step_def upt_rec push_target_def
        Let_def)
  from T2 have calls2: "sync_calls (SyncBackendSrvs ?c ''bk'' ?pool2 ?al2) =
      [SetServerAddr ''bk'' ''SRV_1'' ''10.0.0.1'' 80, SetServerState ''bk'' ''SRV_1'' ''ready'']"
    by (simp add: p2 runtime_calls_def)
  from T2 have err2: "sync_error (SyncBackendSrvs ?c ''bk'' ?pool2 ?al2) = Some [''timeout'']"
    by (simp add: calls2 Errors_Result_def)
  from T ex have upd: "updateHAProxySrv ?client ''bk'' ?ann ?slot 80 ([], [])
      = ([BackendServerEdit ''bk'' \<lparr>srv_Name = ''SRV_1'', srv_Address = ''10.0.0.1'', srv_Port = Some 80,
                                     srv_Maintenance = ''disabled'', srv_Options = ()\<rparr>,
          BackendServerCreate ''bk'' \<lparr>srv_Name = ''SRV_1'', srv_Address = ''10.0.0.1'', srv_Port = Some 80,
                                     srv_Maintenance = ''disabled'', srv_Options = ()\<rparr>],
         [ErrorAPI None])"
    by (simp add: edit_target_def)
  from calls err m2 calls2 err2 upd show ?thesis by simp
qed

text \<open>
  Claim C2 as stated fails. A slot that is already disabled is not found in the address
  set, so every pass marks it and pushes it again: on a pool with one slot holding the
  only live address and one spare disabled slot, all flags cleared, the pass issues two
  calls for the spare slot, and a second pass over the pool and the same address set
  issues them again.
\<close>

theorem second_pass_repeats_calls_counterexample:
  "sync_calls (SyncBackendSrvs \<lparr>respond = \<lambda>_ _. None, ServerGet = \<lambda>_ _. (None :: unit Server option)\<rparr> ''bk''
       (sync_pool (SyncBackendSrvs \<lparr>respond = \<lambda>_ _. None, ServerGet = \<lambda>_ _. (None :: unit Server option)\<rparr> ''bk''
           [\<lparr>Name = ''SRV_1'', Address = ''10.0.0.1'', Modified = False, Port = 80\<rparr>,
            \<lparr>Name = ''SRV_2'', Address = '''', Modified = False, Port = 0\<rparr>]
           [(''10.0.0.1'', \<lparr>addr_Address = ''10.0.0.1'', addr_Port = 80\<rparr>)]))
       [(''10.0.0.1'', \<lparr>addr_Address = ''10.0.0.1'', addr_Port = 80\<rparr>)])
     = [SetServerAddr ''bk'' ''SRV_2'' ''127.0.0.1'' 0, SetServerState ''bk'' ''SRV_2'' ''maint'']
   \<and> SyncBackendSrvs \<lparr>respond = \<lambda>_ _. None, ServerGet = \<lambda>_ _. (None :: unit Server option)\<rparr> ''bk''
           [\<lparr>Name = ''SRV_1'', Address = ''10.0.0.1'', Modified = False, Port = 80\<rparr>,
            \<lparr>Name = ''SRV_2'', Address = '''', Modified = False, Port = 0\<rparr>]
           [(''10.0.0.1'', \<lparr>addr_Address = ''10.0.0.1'', addr_Port = 80\<rparr>)]
     = \<lparr>sync_pool = [\<lparr>Name = ''SRV_1'', Address = ''10.0.0.1'', Modified = False, Port = 80\<rparr>,
                      \<lparr>Name = ''SRV_2'', Address = '''', Modified = True, Port = 0\<rparr>],
         sync_addresses = [],
         sync_calls = [SetServerAddr ''bk'' ''SRV_2'' ''127.0.0.1'' 0, SetServerState ''bk'' ''SRV_2'' ''maint''],
         sync_error = None\<rparr>"
  by (simp add: SyncBackendSrvs_def disable_loop_def disable_step_def upt_rec push_target_def
      Errors_Result_def)

lemma push_loop_clean:
  "\<forall>srv \<in> set srvs. \<not> Modified srv \<Longrightarrow> push_loop c b srvs st = st"
  by (induction srvs) (cases st, simp)+

lemma assign_loop_nothing:
  "dis = [] \<or> al = [] \<Longrightarrow> fst (assign_loop dis pool al) = pool"
  by (cases dis; cases al) auto

lemma second_pass_pool:
  fixes c c' :: "'o HAProxyClient"
  assumes name: "BackendName \<noteq> ''''"
    and keys: "distinct (map fst al)"
    and keyed: "\<forall>(key, address) \<in> set al. addr_Address address = key"
    and nonempty: "'''' \<notin> fst ` set al"
  shows "sync_pool (SyncBackendSrvs c' BackendName (sync_pool (SyncBackendSrvs c BackendName pool al)) al)
         = sync_pool (SyncBackendSrvs c BackendName pool al)"
proof -
  define R where "R = filter (\<lambda>i. \<not> live_at pool al i) [0 ..< length pool]"
  define U where "U = filter (\<lambda>(key, _). key \<notin> Address ` set pool) al"
  define P where "P = sync_pool (SyncBackendSrvs c BackendName pool al)"
  note S = sync_pool_slots[where c = c, OF name keys R_def U_def refl, folded P_def]
  have len: "length P = length pool" using S(1) .
  have Ukeys: "distinct (map fst U)" unfolding U_def using keys by (simp add: distinct_map_filter)
  have Usub: "set U \<subseteq> set al" unfolding U_def by auto
  have Rdist: "distinct R" unfolding R_def by simp
  have Rmem: "i \<in> set R \<longleftrightarrow> i < length pool \<and> \<not> live_at pool al i" for i
    unfolding R_def by auto
  \<comment> \<open>the three kinds of slots after the first pass\<close>
  have kept: "P ! i = pool ! i" if "i < length pool" "live_at pool al i" for i
    using S(2) that .
  have given: "Address (P ! (R ! j)) = fst (U ! j) \<and> Modified (P ! (R ! j))"
    if "j < length R" "j < length U" for j
  proof -
    have "U ! j \<in> set al" using that Usub by auto
    then have "addr_Address (snd (U ! j)) = fst (U ! j)" using keyed by (cases "U ! j") auto
    then show ?thesis using S(3)[OF that(1)] that(2) by simp
  qed
  have spare: "Address (P ! (R ! j)) = '''' \<and> Modified (P ! (R ! j))"
    if "j < length R" "\<not> j < length U" for j
    using S(3)[OF that(1)] that(2) by simp
  have kinds: "(live_at pool al i \<and> P ! i = pool ! i)
      \<or> (\<exists>j. j < length R \<and> j < length U \<and> i = R ! j \<and> Address (P ! i) = fst (U ! j) \<and> Modified (P ! i))
      \<or> (\<exists>j. j < length R \<and> \<not> j < length U \<and> i = R ! j \<and> Address (P ! i) = '''' \<and> Modified (P ! i))"
    if i: "i < length pool" for i
  proof (cases "live_at pool al i")
    case True
    then show ?thesis using kept[OF i] by simp
  next
    case False
    then have "i \<in> set R" using i Rmem by simp
    then obtain j where j: "j < length R" "R ! j = i" by (auto simp: in_set_conv_nth)
    show ?thesis
    proof (cases "j < length U")
      case True
      then show ?thesis using given[OF j(1) True] j by auto
    next
      case F: False
      then show ?thesis using spare[OF j(1) F] j by auto
    qed
  qed
  have Ukey: "fst (U ! j) \<in> fst ` set al \<and> fst (U ! j) \<notin> Address ` set pool" if "j < length U" for j
  proof -
    have "U ! j \<in> set U" using that by simp
    then show ?thesis unfolding U_def by (cases "U ! j") (auto simp: image_iff)
  qed
  \<comment> \<open>the address a slot holds after the first pass, by kind\<close>
  have addr_ne: "Address (P ! i') \<noteq> Address (P ! i)"
    if i: "i < length pool" and i': "i' < i"
      and ok: "live_at pool al i \<or> (\<exists>j. j < length R \<and> j < length U \<and> i = R ! j)" for i i'
  proof -
    have i'l: "i' < length pool" using i i' by simp
    from ok show ?thesis
    proof
      assume L: "live_at pool al i"
      then have Pi: "P ! i = pool ! i" using kept i by simp
      have key: "Address (pool ! i) \<in> fst ` set al" using L by (simp add: live_at_def)
      have fresh: "Address (pool ! i) \<notin> Address ` set (take i pool)" using L by (simp add: live_at_def)
      have inpool: "Address (pool ! i) \<in> Address ` set pool" using i by simp
      from kinds[OF i'l] show ?thesis
      proof (elim disjE exE conjE)
        assume "P ! i' = pool ! i'"
        moreover have "pool ! i' \<in> set (take i pool)"
          using i i' by (auto simp: in_set_conv_nth intro!: exI[of _ i'])
        ultimately show ?thesis using fresh Pi by (metis imageI)
      next
        fix j assume "j < length U" "Address (P ! i') = fst (U ! j)"
        then show ?thesis using Ukey[of j] inpool Pi by metis
      next
        fix j assume "Address (P ! i') = ''''"
        then show ?thesis using key nonempty Pi by metis
      qed
    next
      assume "\<exists>j. j < length R \<and> j < length U \<and> i = R ! j"
      then obtain j where j: "j < length R" "j < length U" "i = R ! j" by blast
      have Pi: "Address (P ! i) = fst (U ! j)" using given[OF j(1,2)] j(3) by simp
      from kinds[OF i'l] show ?thesis
      proof (elim disjE exE conjE)
        assume "P ! i' = pool ! i'"
        then have "Address (P ! i') \<in> Address ` set pool" using i'l by simp
        then show ?thesis using Ukey[OF j(2)] Pi by metis
      next
        fix j' assume j': "j' < length R" "j' < length U" "i' = R ! j'" "Address (P ! i') = fst (U ! j')"
        have "j' \<noteq> j" using j' j i' by auto
        moreover have "j' < length (map fst U)" "j < length (map fst U)" using j' j by simp_all
        ultimately have "map fst U ! j' \<noteq> map fst U ! j"
          using Ukeys by (simp only: nth_eq_iff_index_eq not_False_eq_True)
        then show ?thesis using j' j Pi by simp
      next
        fix j' assume "Address (P ! i') = ''''"
        then show ?thesis using Ukey[OF j(2)] nonempty Pi by metis
      qed
    qed
  qed
  have live2: "live_at P al i"
    if i: "i < length pool"
      and ok: "live_at pool al i \<or> (\<exists>j. j < length R \<and> j < length U \<and> i = R ! j)" for i
  proof -
    have key: "Address (P ! i) \<in> fst ` set al"
      using ok
    proof
      assume L: "live_at pool al i"
      then show ?thesis using kept[OF i L] by (simp add: live_at_def)
    next
      assume "\<exists>j. j < length R \<and> j < length U \<and> i = R ! j"
      then obtain j where j: "j < length R" "j < length U" "i = R ! j" by blast
      then show ?thesis using given[OF j(1,2)] Ukey[OF j(2)] by simp
    qed
    have "Address (P ! i) \<notin> Address ` set (take i P)"
    proof
      assume "Address (P ! i) \<in> Address ` set (take i P)"
      then obtain x where x: "x \<in> set (take i P)" "Address x = Address (P ! i)" by auto
      then obtain i' where "i' < i" "i' < length P" "x = P ! i'"
        by (auto simp: in_set_conv_nth)
      then show False using addr_ne[OF i _ ok, of i'] x by simp
    qed
    with key show ?thesis by (simp add: live_at_def)
  qed
  have notlive2: "Address (P ! i) = '''' \<and> Modified (P ! i)"
    if i: "i < length pool" and n: "\<not> live_at P al i" for i
    using kinds[OF i] live2[OF i] n by blast
  \<comment> \<open>the second pass\<close>
  define R2 where "R2 = filter (\<lambda>i. \<not> live_at P al i) [0 ..< length P]"
  define U2 where "U2 = filter (\<lambda>(key, _). key \<notin> Address ` set (take (length P) P)) al"
  have p1: "map (\<lambda>j. if j < length P \<and> \<not> live_at P al j
                     then (P ! j)\<lparr>Address := '''', Modified := True\<rparr> else P ! j)
              [0 ..< length P] = P"
    using notlive2 len by (intro nth_equalityI) auto
  have dl: "disable_loop P al = (P, U2, R2)"
    unfolding disable_loop_def disable_fold_inv[OF order_refl] by (simp only: p1 R2_def U2_def)
  have none: "R2 = [] \<or> U2 = []"
  proof (cases "R2 = []")
    case True
    then show ?thesis by simp
  next
    case False
    then obtain i where i: "i < length pool" "\<not> live_at P al i"
      unfolding R2_def using len by (auto simp: filter_empty_conv)
    from kinds[OF i(1)] live2[OF i(1)] i(2)
    obtain j0 where j0: "j0 < length R" "\<not> j0 < length U" by blast
    have held: "k \<in> Address ` set P" if k: "(k, v) \<in> set al" for k v
    proof (cases "k \<in> Address ` set pool")
      case True
      define m where "m = (LEAST m. m < length pool \<and> Address (pool ! m) = k)"
      from True obtain m0 where "m0 < length pool" "Address (pool ! m0) = k"
        by (auto simp: in_set_conv_nth)
      then have m: "m < length pool \<and> Address (pool ! m) = k"
        unfolding m_def by (intro LeastI[of "\<lambda>m. m < length pool \<and> Address (pool ! m) = k" m0]) simp
      have least: "\<not> (m' < length pool \<and> Address (pool ! m') = k)" if "m' < m" for m'
        using that unfolding m_def by (rule not_less_Least)
      have "Address (pool ! m) \<notin> Address ` set (take m pool)"
      proof
        assume "Address (pool ! m) \<in> Address ` set (take m pool)"
        then obtain m' where "m' < m" "m' < length pool" "Address (pool ! m') = Address (pool ! m)"
          by (auto simp: in_set_conv_nth)
        then show False using least m by simp
      qed
      moreover have "fst (k, v) \<in> fst ` set al" using k by (rule imageI)
      ultimately have "live_at pool al m" using m by (simp add: live_at_def)
      then have "P ! m = pool ! m" using kept m by simp
      then have "Address (P ! m) = k" using m by simp
      moreover have "P ! m \<in> set P" using m len by simp
      ultimately show ?thesis by (metis imageI)
    next
      case False
      then have "(k, v) \<in> set U" using k by (simp add: U_def)
      then obtain j where j: "j < length U" "U ! j = (k, v)" by (auto simp: in_set_conv_nth)
      have jR: "j < length R" using j j0 by simp
      have "Address (P ! (R ! j)) = k" using given[OF jR j(1)] j(2) by simp
      moreover have "R ! j < length pool" using jR Rmem nth_mem by blast
      then have "P ! (R ! j) \<in> set P" using len by simp
      ultimately show ?thesis by (metis imageI)
    qed
    have "U2 = []" unfolding U2_def using held by (auto simp: filter_empty_conv)
    then show ?thesis by simp
  qed
  have "sync_pool (SyncBackendSrvs c' BackendName P al) = fst (assign_loop R2 P U2)"
    using name by (simp add: SyncBackendSrvs_push(3) dl)
  also have "\<dots> = P" using none by (rule assign_loop_nothing)
  finally show ?thesis unfolding P_def .
qed

lemma runtime_calls_nonempty: "runtime_calls b srv \<noteq> []"
  by (simp add: runtime_calls_def)

lemma silent_sync:
  fixes c :: "'o HAProxyClient"
  assumes name: "BackendName \<noteq> ''''"
    and clean: "\<forall>srv \<in> set pool. \<not> Modified srv"
    and dist: "distinct (map Address pool)"
    and live: "fst ` set newAddresses = Address ` set pool"
    and r: "r = SyncBackendSrvs c BackendName pool newAddresses"
  shows "sync_pool r = pool \<and> sync_addresses r = [] \<and> sync_calls r = [] \<and> sync_error r = None"
proof -
  have la: "live_at pool newAddresses i" if "i < length pool" for i
  proof -
    have "Address (pool ! i) \<in> fst ` set newAddresses" using that live by simp
    moreover have "Address (pool ! i) \<notin> Address ` set (take i pool)"
    proof
      assume "Address (pool ! i) \<in> Address ` set (take i pool)"
      then obtain j where j: "j < i" "Address (pool ! j) = Address (pool ! i)"
        using that by (auto simp: in_set_conv_nth)
      then have "map Address pool ! j = map Address pool ! i" using that by simp
      moreover have "j < length (map Address pool)" "i < length (map Address pool)"
        using j that by simp_all
      ultimately have "j = i" using dist by (simp only: nth_eq_iff_index_eq)
      then show False using j by simp
    qed
    ultimately show ?thesis by (simp add: live_at_def)
  qed
  have p1: "map (\<lambda>j. if j < length pool \<and> \<not> live_at pool newAddresses j
                     then (pool ! j)\<lparr>Address := '''', Modified := True\<rparr> else pool ! j)
              [0 ..< length pool] = pool"
    using la by (intro nth_equalityI) auto
  have d1: "filter (\<lambda>j. \<not> live_at pool newAddresses j) [0 ..< length pool] = []"
    using la by (simp add: filter_empty_conv)
  have a1: "filter (\<lambda>(k, _). k \<notin> Address ` set (take (length pool) pool)) newAddresses = []"
  proof -
    have "k \<in> Address ` set pool" if "(k, v) \<in> set newAddresses" for k v
    proof -
      have "fst (k, v) \<in> fst ` set newAddresses" using that by (rule imageI)
      then show ?thesis by (simp add: live)
    qed
    then show ?thesis by (auto simp: filter_empty_conv)
  qed
  have dl: "disable_loop pool newAddresses = (pool, [], [])"
    unfolding disable_loop_def disable_fold_inv[OF order_refl] by (simp only: p1 d1 a1)
  have R: "r = \<lparr>sync_pool = pool, sync_addresses = [], sync_calls = [], sync_error = None\<rparr>"
    unfolding r SyncBackendSrvs_def using name clean
    by (simp add: dl push_loop_clean Errors_Result_def)
  show ?thesis by (simp add: R)
qed

lemma handle_marked:
  fixes c :: "'o HAProxyClient"
  assumes old: "\<not> newBackend s"
    and same: "ServerGet c ''SRV_1'' (backendName s) = Some (annotated\<lparr>srv_Name := ''SRV_1''\<rparr>)"
    and min: "fst (srvSlots_of GetValue) \<le> int (length pool)"
    and h: "h = HandleEndpoints c GetValue annotated s
                  (Some \<lparr>cfg_BackendName = b, cfg_NewAddresses = [], cfg_HAProxySrvs = Some pool\<rparr>)"
  shows "List.map_filter edited (he_calls h) =
           map (edit_target (annotated\<lparr>srv_Name := ''SRV_1''\<rparr>)) (filter Modified pool)"
    and "\<not> he_reload h"
    and "he_config h = Some \<lparr>cfg_BackendName = backendName s, cfg_NewAddresses = [],
                               cfg_HAProxySrvs = Some pool\<rparr>"
    and "\<forall>srv \<in> set pool. \<not> Modified srv \<Longrightarrow> he_calls h = []"
proof -
  let ?scaled = "if service_DNS s = '''' then scaleHAProxySrvs GetValue [] pool
                 else \<lparr>scale_reload = False, scale_addresses = [], scale_pool = pool, scale_log = []\<rparr>"
  let ?srv = "annotated\<lparr>srv_Name := ''SRV_1''\<rparr>"
  let ?F = "fold (\<lambda>srvSlot st. if Modified srvSlot
                     then updateHAProxySrv c (backendName s) ?srv srvSlot (Port srvSlot) st
                     else st) pool ([], scale_log ?scaled)"
  have sc: "scale_pool ?scaled = pool" "scale_reload ?scaled = False" "scale_addresses ?scaled = []"
    using scaleHAProxySrvs_no_growth[of "[]" GetValue pool] min by simp_all
  have ch: "\<not> deep_Equal_differs (ServerGet c ''SRV_1'' (backendName s)) ?srv"
    by (simp add: deep_Equal_differs_def same)
  have H: "h = \<lparr>he_reload = False,
                he_config = Some \<lparr>cfg_BackendName = backendName s, cfg_NewAddresses = [],
                                   cfg_HAProxySrvs = Some pool\<rparr>,
                he_calls = fst ?F, he_log = snd ?F\<rparr>"
    unfolding h HandleEndpoints_def using old ch
    by (simp add: Let_def sc case_prod_beta)
  show "List.map_filter edited (he_calls h) = map (edit_target ?srv) (filter Modified pool)"
    using fold_update_edits[of Modified c "backendName s" ?srv pool "[]" "scale_log ?scaled"]
    by (simp add: H List.map_filter_simps)
  show "\<not> he_reload h" by (simp add: H)
  show "he_config h = Some \<lparr>cfg_BackendName = backendName s, cfg_NewAddresses = [],
                               cfg_HAProxySrvs = Some pool\<rparr>" by (simp add: H)
  show "he_calls h = []" if "\<forall>srv \<in> set pool. \<not> Modified srv"
    using that by (simp add: H fold_update_none)
qed

text \<open>
  Claim C2, amended. A second call of \<open>SyncBackendSrvs\<close> with the same live address set
  (keyed by address, without the empty address), on the pool as the first call left it,
  marks no additional slot: the pool after the second call is the pool after the first.
  No call clears a mark, so the second call issues the same calls as the first, namely
  the two runtime calls of every slot that is marked after the first call; it issues
  no call exactly when the backend name is empty or no slot is marked after the first
  call. On the edit path, \<open>HandleEndpoints\<close> after it, for a backend that existed, with
  the template the client reads back, a minimum that the pool already meets and no
  address left over, issues one edit per marked slot, leaves the pool as it is and
  returns reload \<open>false\<close>. In particular, when no slot of the pool is marked and the
  slots hold pairwise distinct addresses that are exactly the live addresses, no slot
  is marked, neither call of \<open>SyncBackendSrvs\<close> nor \<open>HandleEndpoints\<close> issues any
  call, and reload is \<open>false\<close>. Scenario C of the specification (one slot holding the
  only live address) is the first instance of the witness.
\<close>

theorem second_pass_repeats_first:
  fixes c c' :: "'o HAProxyClient"
  assumes keys: "distinct (map fst newAddresses)"
    and keyed: "\<forall>(key, address) \<in> set newAddresses. addr_Address address = key"
    and nonempty: "'''' \<notin> fst ` set newAddresses"
    and r1: "r1 = SyncBackendSrvs c BackendName pool newAddresses"
    and r2: "r2 = SyncBackendSrvs c' BackendName (sync_pool r1) newAddresses"
    and h: "h = HandleEndpoints c' GetValue annotated s
                  (Some \<lparr>cfg_BackendName = BackendName, cfg_NewAddresses = sync_addresses r2,
                         cfg_HAProxySrvs = Some (sync_pool r2)\<rparr>)"
  shows "sync_pool r2 = sync_pool r1
       \<and> sync_calls r2 = sync_calls r1
       \<and> sync_calls r2 =
           (if BackendName = '''' then []
            else concat (map (runtime_calls BackendName) (filter Modified (sync_pool r1))))
       \<and> (sync_calls r2 = [] \<longleftrightarrow>
            BackendName = '''' \<or> (\<forall>srv \<in> set (sync_pool r1). \<not> Modified srv))
       \<and> (\<not> newBackend s \<and>
          ServerGet c' ''SRV_1'' (backendName s) = Some (annotated\<lparr>srv_Name := ''SRV_1''\<rparr>) \<and>
          fst (srvSlots_of GetValue) \<le> int (length pool) \<and> sync_addresses r2 = []
          \<longrightarrow> List.map_filter edited (he_calls h) =
                 map (edit_target (annotated\<lparr>srv_Name := ''SRV_1''\<rparr>)) (filter Modified (sync_pool r1))
              \<and> \<not> he_reload h
              \<and> he_config h = Some \<lparr>cfg_BackendName = backendName s, cfg_NewAddresses = [],
                                      cfg_HAProxySrvs = Some (sync_pool r1)\<rparr>)
       \<and> (BackendName \<noteq> '''' \<and> (\<forall>srv \<in> set pool. \<not> Modified srv) \<and>
          distinct (map Address pool) \<and> fst ` set newAddresses = Address ` set pool \<and>
          \<not> newBackend s \<and>
          ServerGet c' ''SRV_1'' (backendName s) = Some (annotated\<lparr>srv_Name := ''SRV_1''\<rparr>) \<and>
          fst (srvSlots_of GetValue) \<le> int (length pool)
          \<longrightarrow> sync_pool r1 = pool \<and> sync_calls r1 = [] \<and> sync_error r1 = None
              \<and> sync_calls r2 = [] \<and> sync_error r2 = None
              \<and> he_calls h = [] \<and> \<not> he_reload h
              \<and> he_config h = Some \<lparr>cfg_BackendName = backendName s, cfg_NewAddresses = [],
                                      cfg_HAProxySrvs = Some pool\<rparr>)"
proof -
  have P: "sync_pool r2 = sync_pool r1"
  proof (cases "BackendName = ''''")
    case True
    then show ?thesis by (simp add: r1 r2 SyncBackendSrvs_def)
  next
    case False
    show ?thesis unfolding r2 r1 by (rule second_pass_pool[OF False keys keyed nonempty])
  qed
  have L: "length (sync_pool r1) = length pool"
    unfolding r1 using SyncBackendSrvs_marks[of c BackendName pool newAddresses] by simp
  have C2: "sync_calls r2 =
           (if BackendName = '''' then []
            else concat (map (runtime_calls BackendName) (filter Modified (sync_pool r1))))"
  proof (cases "BackendName = ''''")
    case True
    then show ?thesis by (simp add: r2 SyncBackendSrvs_def)
  next
    case False
    have "sync_calls r2 = concat (map (runtime_calls BackendName) (filter Modified (sync_pool r2)))"
      unfolding r2 by (rule SyncBackendSrvs_push(1)[OF False])
    then show ?thesis using False P by simp
  qed
  have C1: "sync_calls r1 =
           (if BackendName = '''' then []
            else concat (map (runtime_calls BackendName) (filter Modified (sync_pool r1))))"
  proof (cases "BackendName = ''''")
    case True
    then show ?thesis by (simp add: r1 SyncBackendSrvs_def)
  next
    case False
    have "sync_calls r1 = concat (map (runtime_calls BackendName) (filter Modified (sync_pool r1)))"
      unfolding r1 by (rule SyncBackendSrvs_push(1)[OF False])
    then show ?thesis using False by simp
  qed
  have E: "sync_calls r2 = [] \<longleftrightarrow>
            BackendName = '''' \<or> (\<forall>srv \<in> set (sync_pool r1). \<not> Modified srv)"
    unfolding C2 by (auto simp: runtime_calls_nonempty filter_empty_conv)
  have M: "List.map_filter edited (he_calls h) =
                 map (edit_target (annotated\<lparr>srv_Name := ''SRV_1''\<rparr>)) (filter Modified (sync_pool r1))
              \<and> \<not> he_reload h
              \<and> he_config h = Some \<lparr>cfg_BackendName = backendName s, cfg_NewAddresses = [],
                                      cfg_HAProxySrvs = Some (sync_pool r1)\<rparr>"
    if old: "\<not> newBackend s"
      and same: "ServerGet c' ''SRV_1'' (backendName s) = Some (annotated\<lparr>srv_Name := ''SRV_1''\<rparr>)"
      and min: "fst (srvSlots_of GetValue) \<le> int (length pool)"
      and none: "sync_addresses r2 = []"
  proof -
    have min': "fst (srvSlots_of GetValue) \<le> int (length (sync_pool r1))" using min L by simp
    have h': "h = HandleEndpoints c' GetValue annotated s
                  (Some \<lparr>cfg_BackendName = BackendName, cfg_NewAddresses = [],
                         cfg_HAProxySrvs = Some (sync_pool r1)\<rparr>)"
      using h none P by simp
    from handle_marked(1-3)[OF old same min' h'] show ?thesis by simp
  qed
  have S: "sync_pool r1 = pool \<and> sync_calls r1 = [] \<and> sync_error r1 = None
              \<and> sync_calls r2 = [] \<and> sync_error r2 = None
              \<and> he_calls h = [] \<and> \<not> he_reload h
              \<and> he_config h = Some \<lparr>cfg_BackendName = backendName s, cfg_NewAddresses = [],
                                      cfg_HAProxySrvs = Some pool\<rparr>"
    if name: "BackendName \<noteq> ''''" and clean: "\<forall>srv \<in> set pool. \<not> Modified srv"
      and dist: "distinct (map Address pool)" and live: "fst ` set newAddresses = Address ` set pool"
      and old: "\<not> newBackend s"
      and same: "ServerGet c' ''SRV_1'' (backendName s) = Some (annotated\<lparr>srv_Name := ''SRV_1''\<rparr>)"
      and min: "fst (srvSlots_of GetValue) \<le> int (length pool)"
  proof -
    have one: "sync_pool r1 = pool \<and> sync_addresses r1 = [] \<and> sync_calls r1 = [] \<and> sync_error r1 = None"
      using silent_sync[OF name clean dist live r1] .
    then have r2': "r2 = SyncBackendSrvs c' BackendName pool newAddresses" using r2 by simp
    have two: "sync_pool r2 = pool \<and> sync_addresses r2 = [] \<and> sync_calls r2 = [] \<and> sync_error r2 = None"
      using silent_sync[OF name clean dist live r2'] .
    have h': "h = HandleEndpoints c' GetValue annotated s
                  (Some \<lparr>cfg_BackendName = BackendName, cfg_NewAddresses = [],
                         cfg_HAProxySrvs = Some pool\<rparr>)"
      using h two by simp
    have three: "he_calls h = [] \<and> \<not> he_reload h
              \<and> he_config h = Some \<lparr>cfg_BackendName = backendName s, cfg_NewAddresses = [],
                                      cfg_HAProxySrvs = Some pool\<rparr>"
      using handle_marked(2-4)[OF old same min h'] clean by simp
    from one two three show ?thesis by simp
  qed
  have C12: "sync_calls r2 = sync_calls r1" using C1 C2 by simp
  from P C12 C2 E M S show ?thesis by (simp only:) blast
qed

theorem second_pass_repeats_first_witness:
  "SyncBackendSrvs
      \<lparr>respond = \<lambda>_ _. Some ''down'',
       ServerGet = \<lambda>_ _. Some \<lparr>srv_Name = ''SRV_1'', srv_Address = '''', srv_Port = None,
                                 srv_Maintenance = '''', srv_Options = ()\<rparr>\<rparr> ''bk''
      (sync_pool (SyncBackendSrvs
         \<lparr>respond = \<lambda>_ _. Some ''down'',
          ServerGet = \<lambda>_ _. Some \<lparr>srv_Name = ''SRV_1'', srv_Address = '''', srv_Port = None,
                                    srv_Maintenance = '''', srv_Options = ()\<rparr>\<rparr> ''bk''
         [\<lparr>Name = ''SRV_1'', Address = ''10.0.0.1'', Modified = False, Port = 80\<rparr>]
         [(''10.0.0.1'', \<lparr>addr_Address = ''10.0.0.1'', addr_Port = 80\<rparr>)]))
      [(''10.0.0.1'', \<lparr>addr_Address = ''10.0.0.1'', addr_Port = 80\<rparr>)]
    = \<lparr>sync_pool = [\<lparr>Name = ''SRV_1'', Address = ''10.0.0.1'', Modified = False, Port = 80\<rparr>],
        sync_addresses = [], sync_calls = [], sync_error = None\<rparr>
   \<and> HandleEndpoints
      \<lparr>respond = \<lambda>_ _. Some ''down'',
       ServerGet = \<lambda>_ _. Some \<lparr>srv_Name = ''SRV_1'', srv_Address = '''', srv_Port = None,
                                 srv_Maintenance = '''', srv_Options = ()\<rparr>\<rparr> (\<lambda>a. '''')
      \<lparr>srv_Name = '''', srv_Address = '''', srv_Port = None, srv_Maintenance = '''', srv_Options = ()\<rparr>
      \<lparr>service_DNS = '''', backendName = ''bk'', newBackend = False\<rparr>
      (Some \<lparr>cfg_BackendName = ''bk'', cfg_NewAddresses = [],
             cfg_HAProxySrvs = Some [\<lparr>Name = ''SRV_1'', Address = ''10.0.0.1'', Modified = False, Port = 80\<rparr>]\<rparr>)
    = \<lparr>he_reload = False,
        he_config = Some \<lparr>cfg_BackendName = ''bk'', cfg_NewAddresses = [],
             cfg_HAProxySrvs = Some [\<lparr>Name = ''SRV_1'', Address = ''10.0.0.1'', Modified = False, Port = 80\<rparr>]\<rparr>,
        he_calls = [], he_log = []\<rparr>
   \<and> sync_pool (SyncBackendSrvs
      \<lparr>respond = \<lambda>_ _. Some ''down'',
       ServerGet = \<lambda>_ _. Some \<lparr>srv_Name = ''SRV_1'', srv_Address = '''', srv_Port = None,
                                 srv_Maintenance = '''', srv_Options = ()\<rparr>\<rparr> ''bk''
      (sync_pool (SyncBackendSrvs
         \<lparr>respond = \<lambda>_ _. Some ''down'',
          ServerGet = \<lambda>_ _. Some \<lparr>srv_Name = ''SRV_1'', srv_Address = '''', srv_Port = None,
                                    srv_Maintenance = '''', srv_Options = ()\<rparr>\<rparr> ''bk''
         [\<lparr>Name = ''SRV_1'', Address = ''10.0.0.1'', Modified = False, Port = 80\<rparr>,
          \<lparr>Name = ''SRV_2'', Address = ''10.0.0.2'', Modified = False, Port = 80\<rparr>]
         [(''10.0.0.3'', \<lparr>addr_Address = ''10.0.0.3'', addr_Port = 80\<rparr>)]))
      [(''10.0.0.3'', \<lparr>addr_Address = ''10.0.0.3'', addr_Port = 80\<rparr>)])
    = [\<lparr>Name = ''SRV_1'', Address = ''10.0.0.3'', Modified = True, Port = 80\<rparr>,
       \<lparr>Name = ''SRV_2'', Address = '''', Modified = True, Port = 80\<rparr>]
   \<and> sync_calls (SyncBackendSrvs
      \<lparr>respond = \<lambda>_ _. Some ''down'',
       ServerGet = \<lambda>_ _. Some \<lparr>srv_Name = ''SRV_1'', srv_Address = '''', srv_Port = None,
                                 srv_Maintenance = '''', srv_Options = ()\<rparr>\<rparr> ''bk''
      (sync_pool (SyncBackendSrvs
         \<lparr>respond = \<lambda>_ _. Some ''down'',
          ServerGet = \<lambda>_ _. Some \<lparr>srv_Name = ''SRV_1'', srv_Address = '''', srv_Port = None,
                                    srv_Maintenance = '''', srv_Options = ()\<rparr>\<rparr> ''bk''
         [\<lparr>Name = ''SRV_1'', Address = ''10.0.0.1'', Modified = False, Port = 80\<rparr>,
          \<lparr>Name = ''SRV_2'', Address = ''10.0.0.2'', Modified = False, Port = 80\<rparr>]
         [(''10.0.0.3'', \<lparr>addr_Address = ''10.0.0.3'', addr_Port = 80\<rparr>)]))
      [(''10.0.0.3'', \<lparr>addr_Address = ''10.0.0.3'', addr_Port = 80\<rparr>)])
    = [SetServerAddr ''bk'' ''SRV_1'' ''10.0.0.3'' 80, SetServerState ''bk'' ''SRV_1'' ''ready'',
       SetServerAddr ''bk'' ''SRV_2'' ''127.0.0.1'' 0, SetServerState ''bk'' ''SRV_2'' ''maint'']
   \<and> List.map_filter edited (he_calls (HandleEndpoints
      \<lparr>respond = \<lambda>_ _. Some ''down'',
       ServerGet = \<lambda>_ _. Some \<lparr>srv_Name = ''SRV_1'', srv_Address = '''', srv_Port = None,
                                 srv_Maintenance = '''', srv_Options = ()\<rparr>\<rparr> (\<lambda>a. '''')
      \<lparr>srv_Name = '''', srv_Address = '''', srv_Port = None, srv_Maintenance = '''', srv_Options = ()\<rparr>
      \<lparr>service_DNS = '''', backendName = ''bk'', newBackend = False\<rparr>
      (Some \<lparr>cfg_BackendName = ''bk'', cfg_NewAddresses = [],
             cfg_HAProxySrvs = Some [\<lparr>Name = ''SRV_1'', Address = ''10.0.0.3'', Modified = True, Port = 80\<rparr>,
                                     \<lparr>Name = ''SRV_2'', Address = '''', Modified = True, Port = 80\<rparr>]\<rparr>)))
    = [\<lparr>srv_Name = ''SRV_1'', srv_Address = ''10.0.0.3'', srv_Port = Some 80,
         srv_Maintenance = ''disabled'', srv_Options = ()\<rparr>,
       \<lparr>srv_Name = ''SRV_2'', srv_Address = ''127.0.0.1'', srv_Port = Some 80,
         srv_Maintenance = ''enabled'', srv_Options = ()\<rparr>]"
proof -
  let ?c = "\<lparr>respond = \<lambda>_ _. Some ''down'',
       ServerGet = \<lambda>_ _. Some \<lparr>srv_Name = ''SRV_1'', srv_Address = '''', srv_Port = None,
                                 srv_Maintenance = '''', srv_Options = ()\<rparr>\<rparr>"
  let ?pool = "[\<lparr>Name = ''SRV_1'', Address = ''10.0.0.1'', Modified = False, Port = 80\<rparr>]"
  let ?al = "[(''10.0.0.1'', \<lparr>addr_Address = ''10.0.0.1'', addr_Port = 80\<rparr>)]"
  let ?poolB = "[\<lparr>Name = ''SRV_1'', Address = ''10.0.0.1'', Modified = False, Port = 80\<rparr>,
          \<lparr>Name = ''SRV_2'', Address = ''10.0.0.2'', Modified = False, Port = 80\<rparr>]"
  let ?poolB' = "[\<lparr>Name = ''SRV_1'', Address = ''10.0.0.3'', Modified = True, Port = 80\<rparr>,
       \<lparr>Name = ''SRV_2'', Address = '''', Modified = True, Port = 80\<rparr>]"
  let ?alB = "[(''10.0.0.3'', \<lparr>addr_Address = ''10.0.0.3'', addr_Port = 80\<rparr>)]"
  let ?ann = "\<lparr>srv_Name = '''', srv_Address = '''', srv_Port = None, srv_Maintenance = '''', srv_Options = ()\<rparr>"
  let ?s = "\<lparr>service_DNS = '''', backendName = ''bk'', newBackend = False\<rparr>"
  have k1: "distinct (map fst ?al)" by simp
  have k2: "\<forall>(key, address) \<in> set ?al. addr_Address address = key" by simp
  have k3: "'''' \<notin> fst ` set ?al" by simp
  have b1: "distinct (map fst ?alB)" by simp
  have b2: "\<forall>(key, address) \<in> set ?alB. addr_Address address = key" by simp
  have b3: "'''' \<notin> fst ` set ?alB" by simp
  have min: "fst (srvSlots_of (\<lambda>a. '''')) = 0" by (simp add: srvSlots_of_def)
  have A1: "SyncBackendSrvs ?c ''bk'' ?pool ?al
      = \<lparr>sync_pool = ?pool, sync_addresses = [], sync_calls = [], sync_error = None\<rparr>"
    by (simp add: SyncBackendSrvs_def disable_loop_def disable_step_def upt_rec push_target_def
        Errors_Result_def)
  have B1: "sync_pool (SyncBackendSrvs ?c ''bk'' ?poolB ?alB) = ?poolB'"
    by (simp add: SyncBackendSrvs_def disable_loop_def disable_step_def upt_rec push_target_def
        Let_def)
  have B2: "sync_addresses (SyncBackendSrvs ?c ''bk'' ?poolB' ?alB) = []"
    by (simp add: SyncBackendSrvs_def disable_loop_def disable_step_def upt_rec push_target_def
        Let_def)
  note TA = second_pass_repeats_first[OF k1 k2 k3 refl refl refl, where c = ?c and c' = ?c
      and BackendName = "''bk''" and pool = ?pool and GetValue = "\<lambda>a. ''''" and annotated = ?ann
      and s = ?s]
  note TB = second_pass_repeats_first[OF b1 b2 b3 refl refl refl, where c = ?c and c' = ?c
      and BackendName = "''bk''" and pool = ?poolB and GetValue = "\<lambda>a. ''''" and annotated = ?ann
      and s = ?s]
  note ta2 = TA[THEN conjunct2, THEN conjunct2, THEN conjunct2, THEN conjunct2, THEN conjunct2]
  note tb1 = TB[THEN conjunct1]
  note tb3 = TB[THEN conjunct2, THEN conjunct2, THEN conjunct1]
  note tb5 = TB[THEN conjunct2, THEN conjunct2, THEN conjunct2, THEN conjunct2, THEN conjunct1]
  have pre: "''bk'' \<noteq> '''' \<and> (\<forall>srv \<in> set ?pool. \<not> Modified srv) \<and>
          distinct (map Address ?pool) \<and> fst ` set ?al = Address ` set ?pool \<and>
          \<not> newBackend ?s \<and>
          ServerGet ?c ''SRV_1'' (backendName ?s) = Some (?ann\<lparr>srv_Name := ''SRV_1''\<rparr>) \<and>
          fst (srvSlots_of (\<lambda>a. '''')) \<le> int (length ?pool)"
    by (simp add: min)
  note ta = ta2[rule_format, OF pre]
  have A2: "SyncBackendSrvs ?c ''bk'' (sync_pool (SyncBackendSrvs ?c ''bk'' ?pool ?al)) ?al
      = \<lparr>sync_pool = ?pool, sync_addresses = [], sync_calls = [], sync_error = None\<rparr>"
    by (simp add: A1)
  have lg: "he_log (HandleEndpoints ?c (\<lambda>a. '''') ?ann ?s
      (Some \<lparr>cfg_BackendName = ''bk'', cfg_NewAddresses = [], cfg_HAProxySrvs = Some ?pool\<rparr>)) = []"
    by (simp add: HandleEndpoints_def Let_def scaleHAProxySrvs_def srvSlots_of_def grow_loop.simps
        deep_Equal_differs_def)
  from ta have H: "HandleEndpoints ?c (\<lambda>a. '''') ?ann ?s
      (Some \<lparr>cfg_BackendName = ''bk'', cfg_NewAddresses = [], cfg_HAProxySrvs = Some ?pool\<rparr>)
    = \<lparr>he_reload = False,
        he_config = Some \<lparr>cfg_BackendName = ''bk'', cfg_NewAddresses = [], cfg_HAProxySrvs = Some ?pool\<rparr>,
        he_calls = [], he_log = []\<rparr>"
    unfolding A2 by (intro HandleResult.equality) (simp_all add: lg)
  from tb1 have PB: "sync_pool (SyncBackendSrvs ?c ''bk'' (sync_pool (SyncBackendSrvs ?c ''bk'' ?poolB ?alB)) ?alB)
      = ?poolB'"
    by (simp add: B1)
  from tb3 have CB: "sync_calls (SyncBackendSrvs ?c ''bk'' (sync_pool (SyncBackendSrvs ?c ''bk'' ?poolB ?alB)) ?alB)
      = [SetServerAddr ''bk'' ''SRV_1'' ''10.0.0.3'' 80, SetServerState ''bk'' ''SRV_1'' ''ready'',
         SetServerAddr ''bk'' ''SRV_2'' ''127.0.0.1'' 0, SetServerState ''bk'' ''SRV_2'' ''maint'']"
    by (simp add: B1 runtime_calls_def)
  have preB: "\<not> newBackend ?s \<and>
          ServerGet ?c ''SRV_1'' (backendName ?s) = Some (?ann\<lparr>srv_Name := ''SRV_1''\<rparr>) \<and>
          fst (srvSlots_of (\<lambda>a. '''')) \<le> int (length ?poolB) \<and>
          sync_addresses (SyncBackendSrvs ?c ''bk'' (sync_pool (SyncBackendSrvs ?c ''bk'' ?poolB ?alB)) ?alB) = []"
    by (simp add: min B1 B2)
  note tb = tb5[rule_format, OF preB]
  have PB': "sync_pool (SyncBackendSrvs ?c ''bk'' ?poolB' ?alB) = ?poolB'"
    using PB by (simp add: B1)
  from tb have HB: "List.map_filter edited (he_calls (HandleEndpoints ?c (\<lambda>a. '''') ?ann ?s
      (Some \<lparr>cfg_BackendName = ''bk'', cfg_NewAddresses = [], cfg_HAProxySrvs = Some ?poolB'\<rparr>)))
    = [\<lparr>srv_Name = ''SRV_1'', srv_Address = ''10.0.0.3'', srv_Port = Some 80,
         srv_Maintenance = ''disabled'', srv_Options = ()\<rparr>,
       \<lparr>srv_Name = ''SRV_2'', srv_Address = ''127.0.0.1'', srv_Port = Some 80,
         srv_Maintenance = ''enabled'', srv_Options = ()\<rparr>]"
    by (simp add: B1 B2 PB' edit_target_def)
  from A2 H PB CB HB show ?thesis by simp
qed

section \<open>The comparators\<close>

lemma map_range_iff: "(k, v) \<in> set (map_range m) \<longleftrightarrow> map_of m k = Some v"
  using graph_map_of[of m] by (auto simp: map_range_def Map.graph_def)

lemma ball_map_range:
  "(\<forall>x \<in> set (map_range m). case x of (k, v) \<Rightarrow> P k v) \<longleftrightarrow> (\<forall>k v. map_of m k = Some v \<longrightarrow> P k v)"
proof
  assume L: "\<forall>x \<in> set (map_range m). case x of (k, v) \<Rightarrow> P k v"
  show "\<forall>k v. map_of m k = Some v \<longrightarrow> P k v"
  proof (intro allI impI)
    fix k v assume "map_of m k = Some v"
    then have "(k, v) \<in> set (map_range m)" by (simp add: map_range_iff)
    with L show "P k v" by blast
  qed
next
  assume R: "\<forall>k v. map_of m k = Some v \<longrightarrow> P k v"
  show "\<forall>x \<in> set (map_range m). case x of (k, v) \<Rightarrow> P k v"
  proof
    fix x assume x: "x \<in> set (map_range m)"
    obtain k v where kv: "x = (k, v)" by (cases x)
    with x have "map_of m k = Some v" by (simp add: map_range_iff)
    with R kv show "case x of (k, v) \<Rightarrow> P k v" by simp
  qed
qed

lemma Service_Equal_char:
  "Service_Equal (Some a) (Some b) \<longleftrightarrow>
     svc_Name a = svc_Name b \<and>
     map_len (svc_Annotations a) = map_len (svc_Annotations b) \<and>
     (\<forall>k v. map_of (svc_Annotations a) k = Some v \<longrightarrow> v = map_index (svc_Annotations b) k) \<and>
     length (svc_Ports a) = length (svc_Ports b) \<and>
     (\<forall>i < length (svc_Ports a).
        sp_Name (svc_Ports a ! i) = sp_Name (svc_Ports b ! i) \<and>
        sp_Protocol (svc_Ports a ! i) = sp_Protocol (svc_Ports b ! i) \<and>
        sp_Port (svc_Ports a ! i) = sp_Port (svc_Ports b ! i))"
  unfolding Service_Equal_def
  by (auto simp add: list_all_iff ball_map_range Let_def)

text \<open>
  Claim C9 fails in the code of \<open>Service.Equal\<close>. The loop over the annotations of the
  first service indexes the annotations of the second with \<open>b.Annotations[name]\<close> and
  does not test that the key is present, so a key that the second service lacks reads
  as the empty string, and an annotation with the empty value in the first service is
  matched by any other key in the second. Two services with the same name and the same
  ports whose annotation maps hold one key each, with different keys and the empty
  value in the first, are reported equal although the two maps differ in their key sets
  and in the value. \<open>Secret.Equal\<close> reads \<open>value2, ok := b.Data[key]\<close> and returns
  \<open>false\<close> for the absent key; the annotation loop of \<open>ConfigMap.Equal\<close> is the loop
  of \<open>Service.Equal\<close> and behaves like it.
\<close>

theorem Service_Equal_misses_absent_key:
  assumes "svc_Name a = svc_Name b"
    and "svc_Ports a = svc_Ports b"
    and "svc_Annotations a = [(k, '''')]"
    and "svc_Annotations b = [(k', v)]"
    and "k \<noteq> k'"
  shows "Service_Equal (Some a) (Some b)
       \<and> map_of (svc_Annotations a) \<noteq> map_of (svc_Annotations b)
       \<and> dom (map_of (svc_Annotations a)) \<noteq> dom (map_of (svc_Annotations b))"
proof -
  have "map_of (svc_Annotations a) k \<noteq> map_of (svc_Annotations b) k"
    using assms by simp
  then have "map_of (svc_Annotations a) \<noteq> map_of (svc_Annotations b)" by metis
  moreover have "dom (map_of (svc_Annotations a)) \<noteq> dom (map_of (svc_Annotations b))"
    using assms by simp
  moreover have "Service_Equal (Some a) (Some b)"
    using assms
    by (simp add: Service_Equal_def map_len_def map_range_def map_index_def list_all_iff Let_def)
  ultimately show ?thesis by simp
qed

theorem Service_Equal_misses_absent_key_witness:
  "Service_Equal
     (Some \<lparr>svc_Namespace = ''default'', svc_Name = ''web'',
            svc_Ports = [\<lparr>sp_Name = ''http'', sp_Protocol = ''TCP'', sp_Port = 80, sp_Status = ()\<rparr>],
            svc_Addresses = [], svc_DNS = '''',
            svc_Annotations = [(''check'', '''')], svc_Status = ()\<rparr>)
     (Some \<lparr>svc_Namespace = ''default'', svc_Name = ''web'',
            svc_Ports = [\<lparr>sp_Name = ''http'', sp_Protocol = ''TCP'', sp_Port = 80, sp_Status = ()\<rparr>],
            svc_Addresses = [], svc_DNS = '''',
            svc_Annotations = [(''pod-maxconn'', ''10'')], svc_Status = ()\<rparr>)
   \<and> ConfigMap_Equal
     (Some \<lparr>cm_Namespace = ''default'', cm_Name = ''main'', cm_Loaded = True,
            cm_Annotations = [(''check'', '''')], cm_Status = ()\<rparr>)
     (Some \<lparr>cm_Namespace = ''default'', cm_Name = ''main'', cm_Loaded = True,
            cm_Annotations = [(''pod-maxconn'', ''10'')], cm_Status = ()\<rparr>)
   \<and> \<not> Secret_Equal
     (Some \<lparr>sec_Namespace = ''default'', sec_Name = ''tls'', sec_Data = [(''check'', [])],
            sec_Status = ()\<rparr>)
     (Some \<lparr>sec_Namespace = ''default'', sec_Name = ''tls'', sec_Data = [(''pod-maxconn'', [1])],
            sec_Status = ()\<rparr>)"
proof -
  let ?a = "\<lparr>svc_Namespace = ''default'', svc_Name = ''web'',
            svc_Ports = [\<lparr>sp_Name = ''http'', sp_Protocol = ''TCP'', sp_Port = 80, sp_Status = ()\<rparr>],
            svc_Addresses = [], svc_DNS = '''',
            svc_Annotations = [(''check'', '''')], svc_Status = ()\<rparr>"
  let ?b = "\<lparr>svc_Namespace = ''default'', svc_Name = ''web'',
            svc_Ports = [\<lparr>sp_Name = ''http'', sp_Protocol = ''TCP'', sp_Port = 80, sp_Status = ()\<rparr>],
            svc_Addresses = [], svc_DNS = '''',
            svc_Annotations = [(''pod-maxconn'', ''10'')], svc_Status = ()\<rparr>"
  have "Service_Equal (Some ?a) (Some ?b)"
    using Service_Equal_misses_absent_key[of ?a ?b "''check''" "''pod-maxconn''" "''10''"] by simp
  moreover have "ConfigMap_Equal
     (Some \<lparr>cm_Namespace = ''default'', cm_Name = ''main'', cm_Loaded = True,
            cm_Annotations = [(''check'', '''')], cm_Status = ()\<rparr>)
     (Some \<lparr>cm_Namespace = ''default'', cm_Name = ''main'', cm_Loaded = True,
            cm_Annotations = [(''pod-maxconn'', ''10'')], cm_Status = ()\<rparr>)"
    by (simp add: ConfigMap_Equal_def map_len_def map_range_def map_index_def)
  moreover have "\<not> Secret_Equal
     (Some \<lparr>sec_Namespace = ''default'', sec_Name = ''tls'', sec_Data = [(''check'', [])],
            sec_Status = ()\<rparr>)
     (Some \<lparr>sec_Namespace = ''default'', sec_Name = ''tls'', sec_Data = [(''pod-maxconn'', [1])],
            sec_Status = ()\<rparr>)"
    by (simp add: Secret_Equal_def map_len_def map_range_def)
  ultimately show ?thesis by simp
qed

text \<open>
  Claim C10. Every comparator that starts with the nil test returns \<open>false\<close> when
  either argument is nil, also when both are.
\<close>

theorem nil_guarded_Equal_nil:
  "(a1 = None \<or> b1 = None \<longrightarrow> \<not> PortEndpoints_Equal a1 b1)
   \<and> (a2 = None \<or> b2 = None \<longrightarrow> \<not> Endpoints_Equal a2 b2)
   \<and> (a3 = None \<or> b3 = None \<longrightarrow> \<not> IngressClass_Equal a3 b3)
   \<and> (a4 = None \<or> b4 = None \<longrightarrow> \<not> IngressPath_Equal a4 b4)
   \<and> (a5 = None \<or> b5 = None \<longrightarrow> \<not> IngressRule_Equal a5 b5)
   \<and> (a6 = None \<or> b6 = None \<longrightarrow> \<not> IngressTLS_Equal a6 b6)
   \<and> (a7 = None \<or> b7 = None \<longrightarrow> \<not> Ingress_Equal a7 b7)
   \<and> (a8 = None \<or> b8 = None \<longrightarrow> \<not> Service_Equal a8 b8)
   \<and> (a9 = None \<or> b9 = None \<longrightarrow> \<not> ConfigMap_Equal a9 b9)
   \<and> (a10 = None \<or> b10 = None \<longrightarrow> \<not> Secret_Equal a10 b10)"
proof -
  have 1: "\<not> PortEndpoints_Equal a1 b1" if "a1 = None \<or> b1 = None"
    using that by (cases a1; cases b1) (simp_all add: PortEndpoints_Equal_def)
  have 2: "\<not> Endpoints_Equal a2 b2" if "a2 = None \<or> b2 = None"
    using that by (cases a2; cases b2) (simp_all add: Endpoints_Equal_def)
  have 3: "\<not> IngressClass_Equal a3 b3" if "a3 = None \<or> b3 = None"
    using that by (cases a3; cases b3) (simp_all add: IngressClass_Equal_def)
  have 4: "\<not> IngressPath_Equal a4 b4" if "a4 = None \<or> b4 = None"
    using that by (cases a4; cases b4) (simp_all add: IngressPath_Equal_def)
  have 5: "\<not> IngressRule_Equal a5 b5" if "a5 = None \<or> b5 = None"
    using that by (cases a5; cases b5) (simp_all add: IngressRule_Equal_def)
  have 6: "\<not> IngressTLS_Equal a6 b6" if "a6 = None \<or> b6 = None"
    using that by (cases a6; cases b6) (simp_all add: IngressTLS_Equal_def)
  have 7: "\<not> Ingress_Equal a7 b7" if "a7 = None \<or> b7 = None"
    using that by (cases a7; cases b7) (simp_all add: Ingress_Equal_def)
  have 8: "\<not> Service_Equal a8 b8" if "a8 = None \<or> b8 = None"
    using that by (cases a8; cases b8) (simp_all add: Service_Equal_def)
  have 9: "\<not> ConfigMap_Equal a9 b9" if "a9 = None \<or> b9 = None"
    using that by (cases a9; cases b9) (simp_all add: ConfigMap_Equal_def)
  have 10: "\<not> Secret_Equal a10 b10" if "a10 = None \<or> b10 = None"
    using that by (cases a10; cases b10) (simp_all add: Secret_Equal_def)
  from 1 2 3 4 5 6 7 8 9 10 show ?thesis by (intro conjI impI)
qed

theorem nil_guarded_Equal_nil_witness:
  "\<not> PortEndpoints_Equal None None
   \<and> \<not> Endpoints_Equal (None :: unit Endpoints option) None
   \<and> \<not> IngressClass_Equal (None :: unit IngressClass option) None
   \<and> \<not> IngressPath_Equal (None :: unit IngressPath option) None
   \<and> \<not> IngressRule_Equal (None :: unit IngressRule option) None
   \<and> \<not> IngressTLS_Equal (None :: unit IngressTLS option) None
   \<and> \<not> Ingress_Equal (None :: unit Ingress option) None
   \<and> \<not> Service_Equal (None :: unit Service option) None
   \<and> \<not> ConfigMap_Equal (None :: unit ConfigMap option) None
   \<and> \<not> Secret_Equal (None :: unit Secret option) None
   \<and> \<not> IngressClass_Equal
         (Some \<lparr>ic_APIVersion = ''v1'', ic_Name = ''haproxy'', ic_Controller = ''haproxy.org/ingress-controller'',
                ic_Status = ()\<rparr>) None"
  using nil_guarded_Equal_nil[of None None None None None None None None None None None None None
      None None None None None None None]
    nil_guarded_Equal_nil[of None None None None
      "Some \<lparr>ic_APIVersion = ''v1'', ic_Name = ''haproxy'', ic_Controller = ''haproxy.org/ingress-controller'',
                ic_Status = ()\<rparr>" None None None None None None None None
      None None None None None None None]
  by (simp add: PortEndpoints_Equal_def Endpoints_Equal_def IngressClass_Equal_def
      IngressPath_Equal_def IngressRule_Equal_def IngressTLS_Equal_def Ingress_Equal_def
      Service_Equal_def ConfigMap_Equal_def Secret_Equal_def)

end
